theory Spec2Isabelle
  imports Main
begin

unbundle bit_operations_syntax

section \<open>JavaScript values\<close>

text \<open>
  The library (\<^verbatim>\<open>src/lib/index.js\<close>) is dynamically typed: credentials, upstream
  JSON responses and operation arguments are arbitrary JavaScript values. They are modelled
  by one datatype. A Number is an IEEE 754 double: \<open>Num n\<close> is the integer \<open>n\<close>,
  \<open>Frac m k\<close> the fraction \<open>m / 2 ^ k\<close> (\<open>m\<close> odd, \<open>0 < k\<close>), and there are \<open>NaN\<close> and the
  two infinities. Every integer up to \<open>2 ^ 53\<close> in magnitude is a double; a larger one is a
  double only when it has at most 53 significant bits, and the arithmetic and the parser
  below round to such values. The two zeros are one value: they differ as divisors only, the
  library divides by no value it was given, and both print as \<^verbatim>\<open>0\<close>. A string is a list of 8-bit characters; an object is the list of its
  own properties in enumeration order.
\<close>

datatype number = Num int | Frac int nat | NaN | PosInf | NegInf


datatype jsval =
    JUndefined
  | JNull
  | JBool bool
  | JNum number
  | JStr string
  | JArr "jsval list"
  | JObj "(string \<times> jsval) list"

text \<open>What the library throws: \<^verbatim>\<open>new Error(message)\<close>, or an error raised by the runtime
  (a \<^verbatim>\<open>TypeError\<close> of a builtin, a \<^verbatim>\<open>SyntaxError\<close> of the JSON parser, a rejected fetch).\<close>

datatype error =
    Error string
  | TypeError
  | SyntaxError
  | FetchError

type_synonym 'a result = "error + 'a"

definition bind :: "'a result \<Rightarrow> ('a \<Rightarrow> 'b result) \<Rightarrow> 'b result" where
  "bind m f = (case m of Inl e \<Rightarrow> Inl e | Inr x \<Rightarrow> f x)"

text \<open>ToBoolean: what \<^verbatim>\<open>!v\<close>, \<^verbatim>\<open>v || w\<close> and \<^verbatim>\<open>if (v)\<close> test.\<close>

fun truthy :: "jsval \<Rightarrow> bool" where
  "truthy JUndefined = False"
| "truthy JNull = False"
| "truthy (JBool b) = b"
| "truthy (JNum n) = (n \<noteq> Num 0 \<and> n \<noteq> NaN)"
| "truthy (JStr s) = (s \<noteq> [])"
| "truthy (JArr xs) = True"
| "truthy (JObj kvs) = True"

text \<open>\<^verbatim>\<open>a || b\<close>\<close>

definition js_or :: "jsval \<Rightarrow> jsval \<Rightarrow> jsval" where
  "js_or a b = (if truthy a then a else b)"

fun typeof :: "jsval \<Rightarrow> string" where
  "typeof JUndefined = ''undefined''"
| "typeof JNull = ''object''"
| "typeof (JBool b) = ''boolean''"
| "typeof (JNum n) = ''number''"
| "typeof (JStr s) = ''string''"
| "typeof (JArr xs) = ''object''"
| "typeof (JObj kvs) = ''object''"

subsection \<open>Rounding to a double\<close>

text \<open>\<open>round_ratio p q\<close> is the double nearest to the rational \<open>p / q\<close> (\<open>0 < q\<close>), ties to
  the even significand: 53 significant bits, the exponent of the last bit not below
  \<open>- 1074\<close> (below the normal range the spacing stays \<open>2 ^ - 1074\<close>), and an infinity when
  the rounded magnitude reaches \<open>2 ^ 1024\<close>. A ratio whose value is an integer up to
  \<open>2 ^ 53\<close> in magnitude is that integer. \<open>bitlen n\<close> is the number of binary digits of \<open>n\<close>, \<open>twos m\<close> the number
  of trailing zero bits of \<open>m\<close>, \<open>floor_log2 p q\<close> the exponent of the leading bit of
  \<open>p / q\<close>.\<close>

fun bitlen :: "nat \<Rightarrow> nat" where
  "bitlen n = (if n = 0 then 0 else Suc (bitlen (n div 2)))"

declare bitlen.simps [simp del]

fun twos :: "nat \<Rightarrow> nat" where
  "twos m = (if m = 0 \<or> odd m then 0 else Suc (twos (m div 2)))"

declare twos.simps [simp del]

definition round_half_even :: "nat \<Rightarrow> nat \<Rightarrow> nat" where
  "round_half_even x y =
     (let f = x div y; r = x mod y
      in if 2 * r < y then f else if y < 2 * r then f + 1 else if even f then f else f + 1)"

definition floor_log2 :: "nat \<Rightarrow> nat \<Rightarrow> int" where
  "floor_log2 p q =
     (let b = int (bitlen p) - int (bitlen q)
      in if (if 0 \<le> b then q * 2 ^ nat b \<le> p else q \<le> p * 2 ^ nat (- b)) then b else b - 1)"

definition finite_number :: "bool \<Rightarrow> nat \<Rightarrow> int \<Rightarrow> number" where
  "finite_number neg m e =
     (let sg = (if neg then - 1 else 1 :: int)
      in if m = 0 then Num 0
         else if 0 \<le> e then Num (sg * int (m * 2 ^ nat e))
         else (let t = min (twos m) (nat (- e)); k = nat (- e) - t
               in if k = 0 then Num (sg * int (m div 2 ^ t)) else Frac (sg * int (m div 2 ^ t)) k))"

definition round_ratio :: "int \<Rightarrow> nat \<Rightarrow> number" where
  "round_ratio p q =
     (if p mod int q = 0 \<and> \<bar>p div int q\<bar> \<le> 2 ^ 53 then Num (p div int q)
      else (let a = nat \<bar>p\<bar>;
                e = max (floor_log2 a q - 52) (- 1074);
                m = (if 0 \<le> e then round_half_even a (q * 2 ^ nat e)
                     else round_half_even (a * 2 ^ nat (- e)) q)
            in if 0 \<le> e \<and> 2 ^ 1024 \<le> m * 2 ^ nat e
               then (if p < 0 then NegInf else PosInf)
               else finite_number (p < 0) m e))"

subsection \<open>Arithmetic on Numbers\<close>

text \<open>A finite Number as a ratio; subtraction and multiplication compute the exact rational
  result and round it once, as IEEE 754 prescribes. \<open>NaN\<close> absorbs; \<open>\<infinity> - \<infinity>\<close> and \<open>0 * \<infinity>\<close>
  are \<open>NaN\<close>.\<close>

fun ratio_of :: "number \<Rightarrow> int \<times> nat" where
  "ratio_of (Num n) = (n, 1)"
| "ratio_of (Frac m k) = (m, 2 ^ k)"
| "ratio_of x = (0, 1)"

fun is_finite :: "number \<Rightarrow> bool" where
  "is_finite (Num n) = True"
| "is_finite (Frac m k) = True"
| "is_finite x = False"

fun negative :: "number \<Rightarrow> bool" where
  "negative (Num n) = (n < 0)"
| "negative (Frac m k) = (m < 0)"
| "negative NegInf = True"
| "negative x = False"

fun negate :: "number \<Rightarrow> number" where
  "negate (Num n) = Num (- n)"
| "negate (Frac m k) = Frac (- m) k"
| "negate PosInf = NegInf"
| "negate NegInf = PosInf"
| "negate NaN = NaN"

definition num_minus :: "number \<Rightarrow> number \<Rightarrow> number" where
  "num_minus a b =
     (if a = NaN \<or> b = NaN then NaN
      else if is_finite a \<and> is_finite b
      then round_ratio (fst (ratio_of a) * int (snd (ratio_of b))
                        - fst (ratio_of b) * int (snd (ratio_of a)))
                       (snd (ratio_of a) * snd (ratio_of b))
      else if is_finite a then negate b
      else if is_finite b then a
      else if a = b then NaN else a)"

definition num_times :: "number \<Rightarrow> number \<Rightarrow> number" where
  "num_times a b =
     (if a = NaN \<or> b = NaN then NaN
      else if is_finite a \<and> is_finite b
      then round_ratio (fst (ratio_of a) * fst (ratio_of b)) (snd (ratio_of a) * snd (ratio_of b))
      else if a = Num 0 \<or> b = Num 0 then NaN
      else if negative a \<noteq> negative b then NegInf else PosInf)"

subsection \<open>Number to string and back\<close>

definition digit_char :: "nat \<Rightarrow> char" where
  "digit_char d = ''0123456789'' ! d"

fun dec_nat :: "nat \<Rightarrow> string" where
  "dec_nat n = (if n < 10 then [digit_char n] else dec_nat (n div 10) @ [digit_char (n mod 10)])"

declare dec_nat.simps [simp del]

definition dec_int :: "int \<Rightarrow> string" where
  "dec_int i = (if i < 0 then CHR ''-'' # dec_nat (nat (- i)) else dec_nat (nat i))"

text \<open>Number::toString, radix 10. For a positive finite \<open>x\<close> the standard asks for the
  integers \<open>n\<close>, \<open>k\<close>, \<open>s\<close> with \<open>10 ^ (k - 1) \<le> s < 10 ^ k\<close> and \<open>s * 10 ^ (n - k)\<close> rounding to
  \<open>x\<close>, \<open>k\<close> as small as possible, \<open>s\<close> the closest to \<open>x\<close> (the even one of two): \<open>shortest\<close>
  tries \<open>k = 1, 2, \<dots>, 17\<close> (17 digits identify every double), \<open>candidate\<close> looks at the
  two \<open>k\<close>-digit neighbours of \<open>x\<close>. \<open>format_digits\<close> lays the digits out: an integer with
  trailing zeros, a decimal point inside, leading \<^verbatim>\<open>0.00\<close>, or the exponent form beyond
  \<open>10 ^ 21\<close> and below \<open>10 ^ - 6\<close>. An integer up to \<open>2 ^ 53\<close> in magnitude prints all its
  digits.\<close>

primrec lead_zeros :: "nat \<Rightarrow> nat \<Rightarrow> nat \<Rightarrow> nat" where
  "lead_zeros p q 0 = 1"
| "lead_zeros p q (Suc fuel) = (if q \<le> p * 10 then 1 else Suc (lead_zeros (p * 10) q fuel))"

definition decimal_exponent :: "nat \<Rightarrow> nat \<Rightarrow> int" where
  "decimal_exponent p q =
     (if q \<le> p then int (length (dec_nat (p div q))) else 1 - int (lead_zeros p q 400))"

definition scaled :: "nat \<Rightarrow> int \<Rightarrow> nat \<times> nat" where
  "scaled s j = (if 0 \<le> j then (s * 10 ^ nat j, 1) else (s, 10 ^ nat (- j)))"

definition candidate :: "number \<Rightarrow> nat \<Rightarrow> nat \<Rightarrow> int \<Rightarrow> nat \<Rightarrow> (nat \<times> int) option" where
  "candidate v p q n k =
     (let x = (if 0 \<le> n - int k then (p, q * 10 ^ nat (n - int k))
               else (p * 10 ^ nat (int k - n), q));
          lo = fst x div snd x; r = fst x mod snd x; hi = lo + 1;
          ok = (\<lambda>s. round_ratio (int (fst (scaled s (n - int k)))) (snd (scaled s (n - int k))) = v);
          pick = (\<lambda>s. if s = 10 ^ k then Some (10 ^ (k - 1), n + 1) else Some (s, n))
      in if ok lo \<and> ok hi
         then (if 2 * r < snd x then pick lo else if snd x < 2 * r then pick hi
               else if even lo then pick lo else pick hi)
         else if ok lo then pick lo
         else if ok hi then pick hi
         else None)"

fun shortest :: "number \<Rightarrow> nat \<Rightarrow> nat \<Rightarrow> int \<Rightarrow> nat list \<Rightarrow> nat \<times> int" where
  "shortest v p q n [] = (p * 10 ^ 17 div q, n)"
| "shortest v p q n (k # ks) =
     (case candidate v p q n k of Some sn \<Rightarrow> sn | None \<Rightarrow> shortest v p q n ks)"

definition format_digits :: "nat \<Rightarrow> int \<Rightarrow> string" where
  "format_digits s n =
     (let ds = dec_nat s; k = int (length ds)
      in if k \<le> n \<and> n \<le> 21 then ds @ replicate (nat (n - k)) CHR ''0''
         else if 0 < n \<and> n \<le> 21 then take (nat n) ds @ ''.'' @ drop (nat n) ds
         else if - 6 < n \<and> n \<le> 0 then ''0.'' @ replicate (nat (- n)) CHR ''0'' @ ds
         else (let ex = dec_nat (nat \<bar>n - 1\<bar>); sg = (if n - 1 < 0 then CHR ''-'' else CHR ''+'')
               in if k = 1 then ds @ ''e'' @ [sg] @ ex
                  else [hd ds] @ ''.'' @ tl ds @ ''e'' @ [sg] @ ex))"

definition positive_to_string :: "number \<Rightarrow> string" where
  "positive_to_string v =
     (let p = nat (fst (ratio_of v)); q = snd (ratio_of v);
          sn = shortest v p q (decimal_exponent p q) [1 ..< 18]
      in format_digits (fst sn) (snd sn))"

fun number_to_string :: "number \<Rightarrow> string" where
  "number_to_string NaN = ''NaN''"
| "number_to_string PosInf = ''Infinity''"
| "number_to_string NegInf = ''-Infinity''"
| "number_to_string (Num n) =
     (if \<bar>n\<bar> \<le> 2 ^ 53 then dec_int n
      else if n < 0 then CHR ''-'' # positive_to_string (Num (- n))
      else positive_to_string (Num n))"
| "number_to_string (Frac m k) =
     (if m < 0 then CHR ''-'' # positive_to_string (Frac (- m) k)
      else positive_to_string (Frac m k))"

fun join_comma :: "string list \<Rightarrow> string" where
  "join_comma [] = []"
| "join_comma [s] = s"
| "join_comma (s # t # ss) = s @ '','' @ join_comma (t # ss)"

text \<open>ToString, as a template literal \<^verbatim>\<open>`${v}`\<close> applies it. An array joins its elements
  with commas, \<^verbatim>\<open>null\<close> and \<^verbatim>\<open>undefined\<close> elements as the empty string; a plain object is
  \<^verbatim>\<open>[object Object]\<close>.\<close>

fun ToString :: "jsval \<Rightarrow> string" where
  "ToString JUndefined = ''undefined''"
| "ToString JNull = ''null''"
| "ToString (JBool b) = (if b then ''true'' else ''false'')"
| "ToString (JNum n) = number_to_string n"
| "ToString (JStr s) = s"
| "ToString (JArr xs) =
     join_comma (map (\<lambda>v. if v = JUndefined \<or> v = JNull then [] else ToString v) xs)"
| "ToString (JObj kvs) = ''[object Object]''"

text \<open>StringToNumber. Surrounding white space is dropped and the empty string is 0. A
  literal with the prefix \<^verbatim>\<open>0x\<close>, \<^verbatim>\<open>0o\<close> or \<^verbatim>\<open>0b\<close> (either case, no sign) is an integer in
  that radix. Otherwise an optional sign is followed by \<^verbatim>\<open>Infinity\<close> or by a decimal
  literal: digits with an optional fraction, or a fraction alone, and an optional exponent
  \<^verbatim>\<open>e\<close> or \<^verbatim>\<open>E\<close> with an optionally signed run of digits. The value of the literal is rounded
  to a double. Every other string is \<open>NaN\<close>.\<close>

definition is_ws :: "char \<Rightarrow> bool" where
  "is_ws c = ((of_char c :: nat) \<in> {9, 10, 11, 12, 13, 32, 160})"

definition trim :: "string \<Rightarrow> string" where
  "trim s = rev (dropWhile is_ws (rev (dropWhile is_ws s)))"

definition is_digit :: "char \<Rightarrow> bool" where
  "is_digit c = (48 \<le> (of_char c :: nat) \<and> (of_char c :: nat) \<le> 57)"

definition digits_value :: "string \<Rightarrow> nat" where
  "digits_value ds = foldl (\<lambda>acc c. 10 * acc + (of_char c - 48)) 0 ds"

definition radix_digit :: "char \<Rightarrow> nat option" where
  "radix_digit c =
     (let n = (of_char c :: nat)
      in if 48 \<le> n \<and> n \<le> 57 then Some (n - 48)
         else if 97 \<le> n \<and> n \<le> 102 then Some (n - 87)
         else if 65 \<le> n \<and> n \<le> 70 then Some (n - 55)
         else None)"

definition radix_value :: "nat \<Rightarrow> string \<Rightarrow> nat option" where
  "radix_value r ds =
     (if ds \<noteq> [] \<and> list_all (\<lambda>c. case radix_digit c of None \<Rightarrow> False | Some d \<Rightarrow> d < r) ds
      then Some (foldl (\<lambda>acc c. r * acc + the (radix_digit c)) 0 ds)
      else None)"

definition radix_prefix :: "string \<Rightarrow> (nat \<times> string) option" where
  "radix_prefix t =
     (case t of
        c0 # c1 # rest \<Rightarrow>
          if c0 \<noteq> CHR ''0'' then None
          else if c1 = CHR ''x'' \<or> c1 = CHR ''X'' then Some (16, rest)
          else if c1 = CHR ''o'' \<or> c1 = CHR ''O'' then Some (8, rest)
          else if c1 = CHR ''b'' \<or> c1 = CHR ''B'' then Some (2, rest)
          else None
      | _ \<Rightarrow> None)"

definition split_at :: "(char \<Rightarrow> bool) \<Rightarrow> string \<Rightarrow> string \<times> string option" where
  "split_at P s =
     (takeWhile (\<lambda>c. \<not> P c) s,
      case dropWhile (\<lambda>c. \<not> P c) s of [] \<Rightarrow> None | c # r \<Rightarrow> Some r)"

definition signed_integer :: "string \<Rightarrow> int option" where
  "signed_integer s =
     (let neg = (s \<noteq> [] \<and> hd s = CHR ''-'');
          ds = (if s \<noteq> [] \<and> (hd s = CHR ''-'' \<or> hd s = CHR ''+'') then tl s else s)
      in if ds \<noteq> [] \<and> list_all is_digit ds
         then Some ((if neg then - 1 else 1) * int (digits_value ds))
         else None)"

definition unsigned_decimal :: "string \<Rightarrow> number" where
  "unsigned_decimal u =
     (if u = ''Infinity'' then PosInf
      else (let mant = fst (split_at (\<lambda>c. c = CHR ''e'' \<or> c = CHR ''E'') u);
                ex = (case snd (split_at (\<lambda>c. c = CHR ''e'' \<or> c = CHR ''E'') u) of
                        None \<Rightarrow> Some 0 | Some es \<Rightarrow> signed_integer es);
                ip = fst (split_at (\<lambda>c. c = CHR ''.'') mant);
                dot = snd (split_at (\<lambda>c. c = CHR ''.'') mant);
                fp = (case dot of None \<Rightarrow> [] | Some f \<Rightarrow> f)
            in case ex of
                 None \<Rightarrow> NaN
               | Some x \<Rightarrow>
                   if \<not> list_all is_digit ip \<or> \<not> list_all is_digit fp \<or> (ip = [] \<and> fp = [])
                   then NaN
                   else if 0 \<le> x - int (length fp)
                   then round_ratio (int (digits_value (ip @ fp) * 10 ^ nat (x - int (length fp)))) 1
                   else round_ratio (int (digits_value (ip @ fp)))
                          (10 ^ nat (int (length fp) - x))))"

definition StringToNumber :: "string \<Rightarrow> number" where
  "StringToNumber s =
     (let t = trim s
      in if t = [] then Num 0
         else (case radix_prefix t of
                 Some (r, ds) \<Rightarrow>
                   (case radix_value r ds of None \<Rightarrow> NaN | Some v \<Rightarrow> round_ratio (int v) 1)
               | None \<Rightarrow>
                   if hd t = CHR ''-'' then negate (unsigned_decimal (tl t))
                   else if hd t = CHR ''+'' then unsigned_decimal (tl t)
                   else unsigned_decimal t))"

text \<open>ToNumber; \<^verbatim>\<open>Number(v)\<close> is the same function. Arrays and plain objects go through
  their string.\<close>

fun ToNumber :: "jsval \<Rightarrow> number" where
  "ToNumber JUndefined = NaN"
| "ToNumber JNull = Num 0"
| "ToNumber (JBool b) = Num (if b then 1 else 0)"
| "ToNumber (JNum n) = n"
| "ToNumber (JStr s) = StringToNumber s"
| "ToNumber (JArr xs) = StringToNumber (ToString (JArr xs))"
| "ToNumber (JObj kvs) = NaN"

definition Number :: "jsval \<Rightarrow> jsval" where
  "Number v = JNum (ToNumber v)"

text \<open>\<^verbatim>\<open>a - b\<close> and \<^verbatim>\<open>a * b\<close>: both operands through ToNumber, then the operation on
  doubles.\<close>

definition js_minus :: "jsval \<Rightarrow> jsval \<Rightarrow> number" where
  "js_minus a b = num_minus (ToNumber a) (ToNumber b)"

definition js_times :: "jsval \<Rightarrow> jsval \<Rightarrow> number" where
  "js_times a b = num_times (ToNumber a) (ToNumber b)"

text \<open>Property read \<^verbatim>\<open>v.k\<close>, for the property names the library reads (none of them is
  inherited from a prototype): a \<^verbatim>\<open>TypeError\<close> on \<^verbatim>\<open>null\<close> and \<^verbatim>\<open>undefined\<close>, the own
  property of an object, \<^verbatim>\<open>length\<close> of an array or string, \<^verbatim>\<open>undefined\<close> otherwise.
  \<open>opt_prop\<close> is the optional chain \<^verbatim>\<open>v?.k\<close>.\<close>

definition lookup :: "(string \<times> jsval) list \<Rightarrow> string \<Rightarrow> jsval" where
  "lookup kvs k = (case map_of kvs k of None \<Rightarrow> JUndefined | Some v \<Rightarrow> v)"

fun opt_prop :: "jsval \<Rightarrow> string \<Rightarrow> jsval" where
  "opt_prop (JObj kvs) k = lookup kvs k"
| "opt_prop (JArr xs) k = (if k = ''length'' then JNum (Num (int (length xs))) else JUndefined)"
| "opt_prop (JStr s) k = (if k = ''length'' then JNum (Num (int (length s))) else JUndefined)"
| "opt_prop v k = JUndefined"

definition get_prop :: "jsval \<Rightarrow> string \<Rightarrow> jsval result" where
  "get_prop v k = (if v = JUndefined \<or> v = JNull then Inl TypeError else Inr (opt_prop v k))"

section \<open>The client: credentials\<close>

text \<open>The private \<^verbatim>\<open>#credentials\<close> object of class \<^verbatim>\<open>TeraBox\<close>.\<close>

record credentials =
  ndus :: jsval
  lang :: jsval
  appId :: jsval
  browserId :: jsval
  host :: jsval
  blockId :: jsval
  cookies :: string
  userAgent :: jsval
  jsToken :: jsval

definition quoted :: "string \<Rightarrow> string" where
  "quoted s = CHR 0x22 # s @ [CHR 0x22]"

definition default_userAgent :: string where
  "default_userAgent =
     ''Mozilla/5.0 (Windows NT 10.0; Win64; x64) AppleWebKit/537.36 (KHTML, like Gecko) Chrome/137.0.0.0 Safari/537.36''
     @ [CHR 0x22]"

definition default_jsToken :: string where
  "default_jsToken =
     ''0C911FEECAF128F69DC7400B26711AC301F4B35A0C14C794D9C3E9DB91F8935326E23BAE805D10167B33F36BB255375DE0B23AFCC96C61D1092BB647E7901C2C''"

text \<open>\<^verbatim>\<open>constructor(credentials)\<close>, lines 23-39. The guard reads \<^verbatim>\<open>credentials.ndus\<close> only
  after \<^verbatim>\<open>!credentials\<close> was false, so the read never throws and is \<open>opt_prop\<close>.\<close>

definition TeraBox_constructor :: "jsval \<Rightarrow> credentials result" where
  "TeraBox_constructor c =
     (if \<not> truthy c \<or> \<not> truthy (opt_prop c ''ndus'') \<or> typeof (opt_prop c ''ndus'') \<noteq> ''string''
      then Inl (Error (''TypeError [ERR_INVALID_ARG_TYPE]: The '' @ quoted ''credentials.ndus''
                  @ '' property must be of type string. Received '' @ typeof (opt_prop c ''ndus'')))
      else Inr \<lparr>
        ndus = opt_prop c ''ndus'',
        lang = js_or (opt_prop c ''lang'') (JStr ''en''),
        appId = js_or (opt_prop c ''appId'') (JStr ''250528''),
        browserId = opt_prop c ''browserId'',
        host = js_or (opt_prop c ''host'') (JStr ''https://terabox.com''),
        blockId = js_or (opt_prop c ''blockId'') (JStr ''5910a591dd8fc18c32a8f3df4fdc1761''),
        cookies = ''browserid='' @ ToString (opt_prop c ''browserId'') @ ''; lang=''
                  @ ToString (opt_prop c ''lang'') @ ''; ndus='' @ ToString (opt_prop c ''ndus''),
        userAgent = js_or (opt_prop c ''userAgent'') (JStr default_userAgent),
        jsToken = js_or (opt_prop c ''jsToken'') (JStr default_jsToken) \<rparr>)"

section \<open>The path module\<close>

text \<open>\<^verbatim>\<open>require('node:path')\<close> is the runtime's, and platform dependent; the operations take
  its two functions as a parameter. Both validate their argument: a \<^verbatim>\<open>TypeError\<close> unless it
  is a string.\<close>

record path_module =
  dirname :: "string \<Rightarrow> string"
  basename :: "string \<Rightarrow> string"

definition path_dirname :: "path_module \<Rightarrow> jsval \<Rightarrow> string result" where
  "path_dirname P v = (case v of JStr s \<Rightarrow> Inr (dirname P s) | _ \<Rightarrow> Inl TypeError)"

definition path_basename :: "path_module \<Rightarrow> jsval \<Rightarrow> string result" where
  "path_basename P v = (case v of JStr s \<Rightarrow> Inr (basename P s) | _ \<Rightarrow> Inl TypeError)"

text \<open>The POSIX instance, following the loops of Node's \<^verbatim>\<open>path.posix\<close>: \<open>dirname\<close> scans from
  the last character down to index 1 for the first slash after a non-slash; \<open>basename\<close>
  scans down to index 0 for the last component.\<close>

fun dirname_scan :: "string \<Rightarrow> nat \<Rightarrow> bool \<Rightarrow> nat option" where
  "dirname_scan p 0 matchedSlash = None"
| "dirname_scan p (Suc i) matchedSlash =
     (if i = 0 then None
      else if p ! i = CHR ''/''
           then (if \<not> matchedSlash then Some i else dirname_scan p i matchedSlash)
           else dirname_scan p i False)"

definition posix_dirname :: "string \<Rightarrow> string" where
  "posix_dirname p =
     (if p = [] then ''.''
      else (case dirname_scan p (length p) True of
              None \<Rightarrow> (if hd p = CHR ''/'' then ''/'' else ''.'')
            | Some e \<Rightarrow> (if hd p = CHR ''/'' \<and> e = 1 then ''//'' else take e p)))"

fun basename_scan :: "string \<Rightarrow> nat \<Rightarrow> bool \<Rightarrow> nat option \<Rightarrow> nat \<times> nat option" where
  "basename_scan p 0 matchedSlash e = (0, e)"
| "basename_scan p (Suc i) matchedSlash e =
     (if p ! i = CHR ''/''
      then (if \<not> matchedSlash then (Suc i, e) else basename_scan p i matchedSlash e)
      else if e = None then basename_scan p i False (Some (Suc i))
      else basename_scan p i matchedSlash e)"

definition posix_basename :: "string \<Rightarrow> string" where
  "posix_basename p =
     (case basename_scan p (length p) True None of
        (start, None) \<Rightarrow> []
      | (start, Some e) \<Rightarrow> take (e - start) (drop start p))"

definition posix :: path_module where
  "posix = \<lparr> dirname = posix_dirname, basename = posix_basename \<rparr>"

section \<open>Directory entries\<close>

text \<open>Class \<^verbatim>\<open>TeraBoxDirent\<close>: the public fields, and the private \<^verbatim>\<open>#client\<close> and
  \<^verbatim>\<open>#isDirectory\<close>.\<close>

record dirent =
  dirent_id :: jsval
  dirent_size :: jsval
  dirent_name :: jsval
  dirent_path :: jsval
  parentPath :: string
  atimeMs :: number
  ctimeMs :: number
  mtimeMs :: number
  birthtimeMs :: number
  priv_client :: credentials
  priv_isDirectory :: bool

text \<open>The constructor, lines 354-366. \<^verbatim>\<open>data.fs_id\<close> throws on a \<^verbatim>\<open>null\<close> or \<^verbatim>\<open>undefined\<close>
  record, \<^verbatim>\<open>path.dirname\<close> on a path that is not a string; the other reads are of the same
  record and cannot throw.\<close>

definition TeraBoxDirent :: "path_module \<Rightarrow> jsval \<Rightarrow> credentials \<Rightarrow> dirent result" where
  "TeraBoxDirent P data client =
     bind (get_prop data ''fs_id'') (\<lambda>fs_id.
     bind (path_dirname P (opt_prop data ''path'')) (\<lambda>parent.
       Inr \<lparr>
         dirent_id = fs_id,
         dirent_size = js_or (opt_prop data ''size'') (JNum (Num 0)),
         dirent_name = opt_prop data ''server_filename'',
         dirent_path = opt_prop data ''path'',
         parentPath = parent,
         atimeMs = js_times (js_or (opt_prop data ''server_atime'') (opt_prop data ''atime'')) (JNum (Num 1000)),
         ctimeMs = js_times (js_or (opt_prop data ''server_ctime'') (opt_prop data ''ctime'')) (JNum (Num 1000)),
         mtimeMs = js_times (js_or (opt_prop data ''server_mtime'') (opt_prop data ''mtime'')) (JNum (Num 1000)),
         birthtimeMs = js_times (js_or (opt_prop data ''server_ctime'') (opt_prop data ''ctime'')) (JNum (Num 1000)),
         priv_client = client,
         priv_isDirectory = truthy (opt_prop data ''isdir'') \<rparr>))"

definition isFile :: "dirent \<Rightarrow> bool" where
  "isFile d = (\<not> priv_isDirectory d)"

definition isDirectory :: "dirent \<Rightarrow> bool" where
  "isDirectory d = priv_isDirectory d"

text \<open>\<^verbatim>\<open>new Date(ms)\<close> of a Number: the time value is \<open>ms\<close> with its fraction dropped, or
  the date is invalid when \<open>ms\<close> is not finite or beyond 8.64e15 in magnitude.\<close>

datatype date = Date int | InvalidDate

definition new_Date :: "number \<Rightarrow> date" where
  "new_Date ms =
     (case ms of
        Num n \<Rightarrow> (if \<bar>n\<bar> \<le> 8640000000000000 then Date n else InvalidDate)
      | Frac m k \<Rightarrow>
          (if \<bar>m\<bar> \<le> 8640000000000000 * 2 ^ k then Date (sgn m * (\<bar>m\<bar> div 2 ^ k))
           else InvalidDate)
      | _ \<Rightarrow> InvalidDate)"

definition atime :: "dirent \<Rightarrow> date" where
  "atime d = new_Date (atimeMs d)"

definition ctime :: "dirent \<Rightarrow> date" where
  "ctime d = new_Date (ctimeMs d)"

definition mtime :: "dirent \<Rightarrow> date" where
  "mtime d = new_Date (mtimeMs d)"

definition birthtime :: "dirent \<Rightarrow> date" where
  "birthtime d = new_Date (birthtimeMs d)"

section \<open>The network and the runtime\<close>

text \<open>Every operation sends its requests with \<^verbatim>\<open>fetch\<close>. A request records which call of the
  source issued it, its URL, its headers and its body; \<open>'b\<close> is the type of file contents.\<close>

datatype endpoint =
  Quota | ListDir | Precreate | Superfile | Create | Download | Filemanager | Streaming | HomeInfo

datatype 'b body = NoBody | TextBody string | FormData 'b string

record 'b request =
  endpoint :: endpoint
  url :: string
  headers :: "(string \<times> string) list"
  body :: "'b body"

text \<open>What the library does not own is a parameter of every operation: the path module, the
  JSON codec, \<^verbatim>\<open>Buffer.byteLength\<close>, the upstream service (its answer to a request, given the
  requests made so far, after \<^verbatim>\<open>res.json()\<close> or \<^verbatim>\<open>res.text()\<close>; \<open>Inl\<close> when the fetch or
  the parse rejects), the clock in milliseconds, and the evaluation of the server-supplied
  signing function \<^verbatim>\<open>new Function('return ' + sign2)()(sign3, sign1)\<close>, whose result is a
  string given by its UTF-16 code units.\<close>

record 'b runtime =
  path :: path_module
  JSON_parse :: "string \<Rightarrow> jsval result"
  JSON_stringify :: "jsval \<Rightarrow> string"
  byteLength :: "'b \<Rightarrow> nat result"
  respond_json :: "'b request list \<Rightarrow> 'b request \<Rightarrow> jsval result"
  respond_text :: "'b request list \<Rightarrow> 'b request \<Rightarrow> string result"
  clock :: "'b request list \<Rightarrow> int"
  eval_sign :: "jsval \<Rightarrow> jsval \<Rightarrow> jsval \<Rightarrow> nat list result"

text \<open>An asynchronous operation: from the log of requests made so far to its outcome (the
  value it resolves to, or the error it rejects with) and the extended log.\<close>

type_synonym ('b, 'a) io = "'b request list \<Rightarrow> 'a result \<times> 'b request list"

definition io_bind :: "('b, 'a) io \<Rightarrow> ('a \<Rightarrow> ('b, 'c) io) \<Rightarrow> ('b, 'c) io" where
  "io_bind m f log = (case m log of (Inl e, log') \<Rightarrow> (Inl e, log') | (Inr x, log') \<Rightarrow> f x log')"

definition io_lift :: "'a result \<Rightarrow> ('b, 'a) io" where
  "io_lift r log = (r, log)"

definition fetch_json :: "'b runtime \<Rightarrow> 'b request \<Rightarrow> ('b, jsval) io" where
  "fetch_json env req log = (respond_json env log req, log @ [req])"

definition fetch_text :: "'b runtime \<Rightarrow> 'b request \<Rightarrow> ('b, string) io" where
  "fetch_text env req log = (respond_text env log req, log @ [req])"

text \<open>The shared prefix of the API URLs, the two headers of every request, and the message
  of an API error, \<^verbatim>\<open>`[ERR_API] ${data.errno} ${data.errmsg || ''}`\<close>.\<close>

definition api_url :: "credentials \<Rightarrow> string \<Rightarrow> string" where
  "api_url c name =
     ToString (host c) @ ''/api/'' @ name @ ''?app_id='' @ ToString (appId c)
     @ ''&web=1&channel=dubox&clienttype=0&jsToken='' @ ToString (jsToken c)"

definition std_headers :: "credentials \<Rightarrow> (string \<times> string) list" where
  "std_headers c = [(''Cookie'', cookies c), (''User-Agent'', ToString (userAgent c))]"

definition form_headers :: "credentials \<Rightarrow> (string \<times> string) list" where
  "form_headers c = std_headers c @ [(''Content-Type'', ''application/x-www-form-urlencoded'')]"

definition api_error :: "jsval \<Rightarrow> error" where
  "api_error data =
     Error (''[ERR_API] '' @ ToString (opt_prop data ''errno'') @ '' ''
            @ ToString (js_or (opt_prop data ''errmsg'') (JStr [])))"

definition arg_type_error :: "string \<Rightarrow> string \<Rightarrow> string \<Rightarrow> error" where
  "arg_type_error arg expected received =
     Error (''TypeError [ERR_INVALID_ARG_TYPE]: The '' @ quoted arg @ '' argument must be ''
            @ expected @ ''. Received '' @ received)"

text \<open>Mapping a function that may throw over an array: the first error aborts the map.\<close>

fun map_result :: "('a \<Rightarrow> 'b result) \<Rightarrow> 'a list \<Rightarrow> 'b list result" where
  "map_result f [] = Inr []"
| "map_result f (x # xs) = bind (f x) (\<lambda>y. bind (map_result f xs) (\<lambda>ys. Inr (y # ys)))"

section \<open>The client: operations\<close>

text \<open>\<^verbatim>\<open>quota()\<close>, lines 51-65.\<close>

definition quota_request :: "credentials \<Rightarrow> 'b request" where
  "quota_request c =
     \<lparr> endpoint = Quota, url = api_url c ''quota'', headers = std_headers c, body = NoBody \<rparr>"

definition quota :: "'b runtime \<Rightarrow> credentials \<Rightarrow> ('b, jsval) io" where
  "quota env c =
     io_bind (fetch_json env (quota_request c)) (\<lambda>data.
     io_bind (io_lift (get_prop data ''errno'')) (\<lambda>errno.
       if errno = JNum (Num 0)
       then io_lift (Inr (JObj [
              (''used'', opt_prop data ''used''),
              (''total'', opt_prop data ''total''),
              (''free'', JNum (js_minus (opt_prop data ''total'') (opt_prop data ''used'')))]))
       else io_lift (Inl (api_error data))))"

text \<open>\<^verbatim>\<open>list(directory = '/')\<close>, lines 78-88. \<^verbatim>\<open>data.list.map\<close> is a \<^verbatim>\<open>TypeError\<close> unless the
  listing is an array. A default parameter value applies when the argument is \<^verbatim>\<open>undefined\<close>.\<close>

definition default_arg :: "jsval \<Rightarrow> jsval \<Rightarrow> jsval" where
  "default_arg v d = (if v = JUndefined then d else v)"

definition list_request :: "credentials \<Rightarrow> jsval \<Rightarrow> 'b request" where
  "list_request c directory =
     \<lparr> endpoint = ListDir,
       url = api_url c ''list'' @ ''&dir='' @ ToString (default_arg directory (JStr ''/'')),
       headers = std_headers c, body = NoBody \<rparr>"

definition list_dir :: "'b runtime \<Rightarrow> credentials \<Rightarrow> jsval \<Rightarrow> ('b, dirent list) io" where
  "list_dir env c directory =
     io_bind (fetch_json env (list_request c directory)) (\<lambda>data.
     io_bind (io_lift (get_prop data ''errno'')) (\<lambda>errno.
       if errno = JNum (Num 0)
       then (case opt_prop data ''list'' of
               JArr xs \<Rightarrow> io_lift (map_result (\<lambda>i. TeraBoxDirent (path env) i c) xs)
             | _ \<Rightarrow> io_lift (Inl TypeError))
       else io_lift (Inl (api_error data))))"

text \<open>\<^verbatim>\<open>upload(filePath, fileBody)\<close>, lines 102-142: precreate, transfer, finalize. The two
  form bodies read the clock when they are built.\<close>

definition ends_with_slash :: "string \<Rightarrow> bool" where
  "ends_with_slash s = (s \<noteq> [] \<and> last s = CHR ''/'')"

definition precreate_request ::
  "credentials \<Rightarrow> jsval \<Rightarrow> string \<Rightarrow> nat \<Rightarrow> int \<Rightarrow> 'b request" where
  "precreate_request c filePath targetPath byte_size now =
     \<lparr> endpoint = Precreate, url = api_url c ''precreate'', headers = form_headers c,
       body = TextBody (''path='' @ ToString filePath @ ''&autoinit=1&target_path='' @ targetPath
         @ ''&block_list=['' @ quoted (ToString (blockId c)) @ '']&size='' @ dec_nat byte_size
         @ ''&file_limit_switch_v34=true&local_mtime='' @ dec_int (now div 1000)) \<rparr>"

definition superfile_request ::
  "credentials \<Rightarrow> jsval \<Rightarrow> 'b \<Rightarrow> string \<Rightarrow> jsval \<Rightarrow> 'b request" where
  "superfile_request c filePath fileBody base data_precreate =
     \<lparr> endpoint = Superfile,
       url = ''https://c-jp.terabox.com/rest/2.0/pcs/superfile2?app_id='' @ ToString (appId c)
         @ ''&web=1&channel=dubox&clienttype=0&web=1&method=upload&path='' @ ToString filePath
         @ ''&uploadid='' @ ToString (opt_prop data_precreate ''uploadid'')
         @ ''&uploadsign=0&partseq=0'',
       headers = [(''Cookie'', cookies c), (''Origin'', ''https://www.1024terabox.com''),
                  (''User-Agent'', ToString (userAgent c))],
       body = FormData fileBody base \<rparr>"

definition create_request ::
  "credentials \<Rightarrow> jsval \<Rightarrow> string \<Rightarrow> nat \<Rightarrow> jsval \<Rightarrow> jsval \<Rightarrow> int \<Rightarrow> 'b request" where
  "create_request c filePath targetPath byte_size data_precreate md5 now =
     \<lparr> endpoint = Create, url = api_url c ''create'' @ ''&isdir=0&rtype=1'',
       headers = form_headers c,
       body = TextBody (''path='' @ ToString filePath @ ''&size='' @ dec_nat byte_size
         @ ''&uploadid='' @ ToString (opt_prop data_precreate ''uploadid'')
         @ ''&target_path='' @ targetPath
         @ ''&block_list=['' @ quoted (ToString md5) @ '']&local_mtime=''
         @ dec_int (now div 1000)) \<rparr>"

definition upload :: "'b runtime \<Rightarrow> credentials \<Rightarrow> jsval \<Rightarrow> 'b \<Rightarrow> ('b, dirent) io" where
  "upload env c filePath fileBody =
     io_bind (io_lift (byteLength env fileBody)) (\<lambda>byte_size.
     io_bind (io_lift (path_dirname (path env) filePath)) (\<lambda>dir.
     let targetPath = (if \<not> ends_with_slash dir then dir @ ''/'' else dir) in
     io_bind (\<lambda>log. fetch_json env
         (precreate_request c filePath targetPath byte_size (clock env log)) log) (\<lambda>data_precreate.
     io_bind (io_lift (get_prop data_precreate ''errno'')) (\<lambda>errno.
     if errno \<noteq> JNum (Num 0) then io_lift (Inl (api_error data_precreate))
     else
     io_bind (io_lift (path_basename (path env) filePath)) (\<lambda>base.
     io_bind (fetch_json env
         (superfile_request c filePath fileBody base data_precreate)) (\<lambda>data_superfile.
     io_bind (io_lift (get_prop data_superfile ''md5'')) (\<lambda>md5.
     if \<not> truthy md5 then io_lift (Inl (Error ''[ERR_API] Unable to upload file''))
     else
     io_bind (\<lambda>log. fetch_json env
         (create_request c filePath targetPath byte_size data_precreate md5 (clock env log)) log)
       (\<lambda>data_create.
     io_bind (io_lift (get_prop data_create ''errno'')) (\<lambda>errno_create.
       if errno_create = JNum (Num 0)
       then io_lift (TeraBoxDirent (path env) data_create c)
       else io_lift (Inl (api_error data_create)))))))))))"

subsection \<open>The signature encoder\<close>

text \<open>The anonymous function inside \<^verbatim>\<open>#sign\<close>, lines 297-325. Its argument \<open>e\<close> is a string,
  given by its UTF-16 code units (each below \<open>2 ^ 16\<close>, where the conversion to a 32-bit
  integer that \<^verbatim>\<open>&\<close> applies changes nothing). \<^verbatim>\<open>s.charAt(k)\<close> is the empty string out of
  range. \<^verbatim>\<open>e.charCodeAt(i)\<close> is only read at \<open>i < n\<close> and only used under \<^verbatim>\<open>&\<close>, where the
  \<open>NaN\<close> of an index out of range would count as 0.\<close>

definition alphabet :: string where
  "alphabet = ''ABCDEFGHIJKLMNOPQRSTUVWXYZabcdefghijklmnopqrstuvwxyz0123456789+/''"

definition charAt :: "string \<Rightarrow> nat \<Rightarrow> string" where
  "charAt s k = (if k < length s then [s ! k] else [])"

definition charCodeAt :: "nat list \<Rightarrow> nat \<Rightarrow> nat" where
  "charCodeAt e i = (if i < length e then e ! i else 0)"

function encode_loop :: "nat list \<Rightarrow> nat \<Rightarrow> string \<Rightarrow> string" where
  "encode_loop e i t =
     (if i < length e then
        (if i + 1 = length e then
           t @ charAt alphabet (drop_bit 2 (255 AND charCodeAt e i))
             @ charAt alphabet (push_bit 4 (3 AND (255 AND charCodeAt e i)))
             @ ''==''
         else if i + 2 = length e then
           t @ charAt alphabet (drop_bit 2 (255 AND charCodeAt e i))
             @ charAt alphabet (push_bit 4 (3 AND (255 AND charCodeAt e i))
                                OR drop_bit 4 (240 AND charCodeAt e (i + 1)))
             @ charAt alphabet (push_bit 2 (15 AND charCodeAt e (i + 1)))
             @ ''=''
         else
           encode_loop e (i + 3)
             (t @ charAt alphabet (drop_bit 2 (255 AND charCodeAt e i))
                @ charAt alphabet (push_bit 4 (3 AND (255 AND charCodeAt e i))
                                   OR drop_bit 4 (240 AND charCodeAt e (i + 1)))
                @ charAt alphabet (push_bit 2 (15 AND charCodeAt e (i + 1))
                                   OR drop_bit 6 (192 AND charCodeAt e (i + 2)))
                @ charAt alphabet (63 AND charCodeAt e (i + 2))))
      else t)"
  by pat_completeness auto
termination
  by (relation "measure (\<lambda>(e, i, t). length e - i)") auto

declare encode_loop.simps [simp del]

definition sign_encode :: "nat list \<Rightarrow> string" where
  "sign_encode e = encode_loop e 0 []"

text \<open>Following the spec's words, for comparison: standard base64. Three bytes form a 24-bit
  group read as four 6-bit indices into the alphabet; one leftover byte is padded with four
  zero bits to two indices and followed by \<^verbatim>\<open>==\<close>; two leftover bytes are padded with two zero
  bits to three indices and followed by \<^verbatim>\<open>=\<close>.\<close>

definition sextets :: "nat \<Rightarrow> nat \<Rightarrow> nat list" where
  "sextets k n = map (\<lambda>j. (n div 64 ^ (k - 1 - j)) mod 64) [0..<k]"

definition base64_chars :: "nat list \<Rightarrow> string" where
  "base64_chars ixs = map (\<lambda>k. alphabet ! k) ixs"

fun base64_spec :: "nat list \<Rightarrow> string" where
  "base64_spec [] = []"
| "base64_spec [a] = base64_chars (sextets 2 (a * 16)) @ ''==''"
| "base64_spec [a, b] = base64_chars (sextets 3 ((a * 256 + b) * 4)) @ ''=''"
| "base64_spec (a # b # c # rest) =
     base64_chars (sextets 4 (a * 65536 + b * 256 + c)) @ base64_spec rest"

subsection \<open>Download, move, delete, stream\<close>

text \<open>An argument that may be a \<^verbatim>\<open>TeraBoxDirent\<close> instance or a plain value, alone or in an
  array. \<^verbatim>\<open>if (!Array.isArray(x)) x = [x]\<close> is \<open>to_array\<close>.\<close>

datatype arg = Instance dirent | Plain jsval

datatype args = Array "arg list" | Single arg

fun to_array :: "args \<Rightarrow> arg list" where
  "to_array (Array xs) = xs"
| "to_array (Single (Plain (JArr xs))) = map Plain xs"
| "to_array (Single a) = [a]"

text \<open>\<^verbatim>\<open>#fetchHome()\<close>, lines 335-348, and \<^verbatim>\<open>#sign()\<close>, lines 295-327.\<close>

definition home_request :: "credentials \<Rightarrow> 'b request" where
  "home_request c =
     \<lparr> endpoint = HomeInfo, url = api_url c ''home/info'', headers = std_headers c,
       body = NoBody \<rparr>"

definition fetchHome :: "'b runtime \<Rightarrow> credentials \<Rightarrow> ('b, jsval) io" where
  "fetchHome env c =
     io_bind (fetch_json env (home_request c)) (\<lambda>data.
     io_bind (io_lift (get_prop data ''errno'')) (\<lambda>errno.
       if errno = JNum (Num 0)
       then (if \<not> truthy (opt_prop data ''data'')
                \<or> \<not> truthy (opt_prop (opt_prop data ''data'') ''sign1'')
                \<or> \<not> truthy (opt_prop (opt_prop data ''data'') ''sign2'')
                \<or> \<not> truthy (opt_prop (opt_prop data ''data'') ''sign3'')
                \<or> \<not> truthy (opt_prop (opt_prop data ''data'') ''timestamp'')
             then io_lift (Inl (Error ''[ERR_API] Unable to fetch home information''))
             else io_lift (Inr (opt_prop data ''data'')))
       else io_lift (Inl (api_error data))))"

definition sign :: "'b runtime \<Rightarrow> credentials \<Rightarrow> ('b, string \<times> jsval) io" where
  "sign env c =
     io_bind (fetchHome env c) (\<lambda>home.
     io_bind (io_lift (eval_sign env (opt_prop home ''sign2'') (opt_prop home ''sign3'')
                         (opt_prop home ''sign1''))) (\<lambda>e.
       io_lift (Inr (sign_encode e, opt_prop home ''timestamp''))))"

text \<open>\<^verbatim>\<open>download(fileIds)\<close>, lines 160-183.\<close>

definition normalize_fileId :: "arg \<Rightarrow> jsval result" where
  "normalize_fileId fileId =
     (case fileId of
        Instance d \<Rightarrow> Inr (dirent_id d)
      | Plain v \<Rightarrow>
          if typeof v = ''number'' \<or> typeof v = ''string'' then Inr (Number v)
          else Inl (arg_type_error ''fileIds''
                 ''an array of TeraBoxDirent instances or strings/numbers'' (typeof v)))"

definition less_than_1 :: "jsval \<Rightarrow> bool" where
  "less_than_1 v =
     (case ToNumber v of
        Num n \<Rightarrow> n < 1
      | Frac m k \<Rightarrow> m < 2 ^ k
      | NegInf \<Rightarrow> True
      | _ \<Rightarrow> False)"

definition download_request ::
  "'b runtime \<Rightarrow> credentials \<Rightarrow> jsval list \<Rightarrow> string \<times> jsval \<Rightarrow> 'b request" where
  "download_request env c ids sg =
     \<lparr> endpoint = Download,
       url = api_url c ''download'' @ ''&fidlist='' @ JSON_stringify env (JArr ids)
         @ ''&type=dlink&vip=2&sign='' @ fst sg @ ''&timestamp='' @ ToString (snd sg)
         @ ''&need_speed=0'',
       headers = std_headers c, body = NoBody \<rparr>"

definition download :: "'b runtime \<Rightarrow> credentials \<Rightarrow> args \<Rightarrow> ('b, jsval list) io" where
  "download env c fileIds =
     io_bind (io_lift (map_result normalize_fileId (to_array fileIds))) (\<lambda>ids.
     io_bind (sign env c) (\<lambda>sg.
     io_bind (fetch_json env (download_request env c ids sg)) (\<lambda>data.
     io_bind (io_lift (get_prop data ''errno'')) (\<lambda>errno.
       if errno = JNum (Num 0)
       then (if \<not> truthy (opt_prop data ''dlink'')
                \<or> less_than_1 (opt_prop (opt_prop data ''dlink'') ''length'')
             then io_lift (Inl (Error ''[ERR_API] Unable to fetch download link''))
             else (case opt_prop data ''dlink'' of
                     JArr xs \<Rightarrow>
                       io_lift (map_result (\<lambda>i. bind (get_prop i ''fs_id'') (\<lambda>fs_id.
                         Inr (JObj [(''id'', fs_id), (''link'', opt_prop i ''dlink'')]))) xs)
                   | _ \<Rightarrow> io_lift (Inl TypeError)))
       else io_lift (Inl (api_error data))))))"

text \<open>\<^verbatim>\<open>move(files)\<close>, lines 199-216. \<^verbatim>\<open>Object.entries\<close> throws on \<^verbatim>\<open>null\<close>; an array's entries
  are its indices and elements. The per-entry record is built before the request is sent.\<close>

fun Object_entries :: "jsval \<Rightarrow> (string \<times> jsval) list result" where
  "Object_entries JUndefined = Inl TypeError"
| "Object_entries JNull = Inl TypeError"
| "Object_entries (JObj kvs) = Inr kvs"
| "Object_entries (JArr xs) = Inr (zip (map dec_nat [0..<length xs]) xs)"
| "Object_entries (JStr s) = Inr (zip (map dec_nat [0..<length s]) (map (\<lambda>ch. JStr [ch]) s))"
| "Object_entries v = Inr []"

definition move_entry :: "path_module \<Rightarrow> string \<times> jsval \<Rightarrow> jsval result" where
  "move_entry P entry =
     (case entry of (sourcePath, targetPath) \<Rightarrow>
        bind (path_dirname P targetPath) (\<lambda>dir.
        bind (path_basename P targetPath) (\<lambda>base.
          Inr (JObj [(''path'', JStr sourcePath),
                     (''dest'', JStr (if dir = ''/'' then [] else dir)),
                     (''newname'', JStr base)]))))"

definition filemanager_request ::
  "'b runtime \<Rightarrow> credentials \<Rightarrow> string \<Rightarrow> jsval list \<Rightarrow> 'b request" where
  "filemanager_request env c opera filelist =
     \<lparr> endpoint = Filemanager,
       url = api_url c ''filemanager'' @ ''&async=2&onnest=fail&opera='' @ opera,
       headers = std_headers c,
       body = TextBody (''filelist='' @ JSON_stringify env (JArr filelist)) \<rparr>"

definition move :: "'b runtime \<Rightarrow> credentials \<Rightarrow> jsval \<Rightarrow> ('b, bool) io" where
  "move env c files =
     (if typeof files \<noteq> ''object''
      then io_lift (Inl (arg_type_error ''files'' ''of type object'' (typeof files)))
      else
        io_bind (io_lift (Object_entries files)) (\<lambda>entries.
        io_bind (io_lift (map_result (move_entry (path env)) entries)) (\<lambda>filelist.
        io_bind (fetch_json env (filemanager_request env c ''move'' filelist)) (\<lambda>data.
        io_bind (io_lift (get_prop data ''errno'')) (\<lambda>errno.
          if errno = JNum (Num 0) then io_lift (Inr True)
          else io_lift (Inl (api_error data)))))))"

text \<open>\<^verbatim>\<open>delete(files)\<close>, lines 233-251.\<close>

definition normalize_filePath :: "arg \<Rightarrow> jsval result" where
  "normalize_filePath filePath =
     (case filePath of
        Instance d \<Rightarrow> Inr (dirent_path d)
      | Plain v \<Rightarrow>
          if typeof v = ''string'' then Inr v
          else Inl (arg_type_error ''files''
                 ''an array of TeraBoxDirent instances or strings'' (typeof v)))"

definition delete :: "'b runtime \<Rightarrow> credentials \<Rightarrow> args \<Rightarrow> ('b, bool) io" where
  "delete env c files =
     io_bind (io_lift (map_result normalize_filePath (to_array files))) (\<lambda>paths.
     io_bind (fetch_json env (filemanager_request env c ''delete'' paths)) (\<lambda>data.
     io_bind (io_lift (get_prop data ''errno'')) (\<lambda>errno.
       if errno = JNum (Num 0) then io_lift (Inr True)
       else io_lift (Inl (api_error data)))))"

text \<open>\<^verbatim>\<open>stream(filePath, type = 'M3U8_FLV_264_480')\<close>, lines 271-287. The \<^verbatim>\<open>throw\<close> of line 283
  stands inside the \<^verbatim>\<open>try\<close> block whose \<^verbatim>\<open>catch\<close> returns the text: \<open>try_catch\<close> hands every
  error of the block to the handler.\<close>

definition try_catch :: "'a result \<Rightarrow> 'a result \<Rightarrow> 'a result" where
  "try_catch block handler = (case block of Inl e \<Rightarrow> handler | Inr x \<Rightarrow> Inr x)"

definition starts_with_brace :: "string \<Rightarrow> bool" where
  "starts_with_brace s = (s \<noteq> [] \<and> hd s = CHR ''{'')"

definition stream_request :: "credentials \<Rightarrow> jsval \<Rightarrow> jsval \<Rightarrow> 'b request" where
  "stream_request c filePath type =
     \<lparr> endpoint = Streaming,
       url = ToString (host c) @ ''/api/streaming?app_id='' @ ToString (appId c)
         @ ''&clienttype=0&path='' @ ToString filePath @ ''&type=''
         @ ToString (default_arg type (JStr ''M3U8_FLV_264_480'')) @ ''&vip=0'',
       headers = std_headers c, body = NoBody \<rparr>"

definition stream :: "'b runtime \<Rightarrow> credentials \<Rightarrow> jsval \<Rightarrow> jsval \<Rightarrow> ('b, string) io" where
  "stream env c filePath type =
     (if typeof filePath \<noteq> ''string''
      then io_lift (Inl (arg_type_error ''filePath'' ''of type string'' (typeof filePath)))
      else
        io_bind (fetch_text env (stream_request c filePath type)) (\<lambda>data.
          if starts_with_brace data
          then io_lift (try_catch
                 (bind (JSON_parse env data) (\<lambda>json.
                  bind (get_prop json ''errno'') (\<lambda>errno.
                    if errno \<noteq> JNum (Num 0) then Inl (api_error json) else Inr data)))
                 (Inr data))
          else io_lift (Inr data)))"

subsection \<open>Methods of a directory entry that call the client\<close>

text \<open>Lines 425-460. \<^verbatim>\<open>d[0].link\<close> reads the first element of the resolved array.\<close>

definition dirent_download :: "'b runtime \<Rightarrow> dirent \<Rightarrow> ('b, jsval) io" where
  "dirent_download env d =
     io_bind (download env (priv_client d) (Single (Plain (dirent_id d)))) (\<lambda>links.
       io_lift (case links of [] \<Rightarrow> Inl TypeError | l # _ \<Rightarrow> get_prop l ''link''))"

definition dirent_move :: "'b runtime \<Rightarrow> dirent \<Rightarrow> jsval \<Rightarrow> ('b, bool) io" where
  "dirent_move env d targetPath =
     (if typeof targetPath \<noteq> ''string''
      then io_lift (Inl (arg_type_error ''targetPath'' ''of type string'' (typeof targetPath)))
      else move env (priv_client d) (JObj [(ToString (dirent_path d), targetPath)]))"

definition dirent_delete :: "'b runtime \<Rightarrow> dirent \<Rightarrow> ('b, bool) io" where
  "dirent_delete env d = delete env (priv_client d) (Single (Plain (dirent_path d)))"

definition dirent_stream :: "'b runtime \<Rightarrow> dirent \<Rightarrow> jsval \<Rightarrow> ('b, string) io" where
  "dirent_stream env d type = stream env (priv_client d) (dirent_path d) type"

text \<open>The outcome of the first two steps of \<^verbatim>\<open>upload\<close>, as the upstream answered them:
  precreate returned status code zero; the transfer returned a checksum.\<close>

definition precreate_ok :: "'b runtime \<Rightarrow> 'b request list \<Rightarrow> 'b request \<Rightarrow> bool" where
  "precreate_ok env log req =
     (case respond_json env log req of
        Inl e \<Rightarrow> False
      | Inr d \<Rightarrow> get_prop d ''errno'' = Inr (JNum (Num 0)))"

definition transfer_ok :: "'b runtime \<Rightarrow> 'b request list \<Rightarrow> 'b request \<Rightarrow> bool" where
  "transfer_ok env log req =
     (case respond_json env log req of
        Inl e \<Rightarrow> False
      | Inr d \<Rightarrow> (case get_prop d ''md5'' of Inl e \<Rightarrow> False | Inr md5 \<Rightarrow> truthy md5))"

section \<open>Sample inputs\<close>

text \<open>Concrete credentials, upstream records and a concrete runtime, at which the
  properties below are evaluated.\<close>

definition sample_client :: credentials where
  "sample_client =
     \<lparr> ndus = JStr ''token'', lang = JStr ''en'', appId = JStr ''250528'',
       browserId = JUndefined, host = JStr ''https://terabox.com'',
       blockId = JStr ''5910a591dd8fc18c32a8f3df4fdc1761'',
       cookies = ''browserid=undefined; lang=undefined; ndus=token'',
       userAgent = JStr default_userAgent, jsToken = JStr default_jsToken \<rparr>"

definition file_record :: jsval where
  "file_record = JObj [
     (''errno'', JNum (Num 0)),
     (''fs_id'', JNum (Num 42)),
     (''server_filename'', JStr ''a.txt''),
     (''path'', JStr ''/docs/a.txt''),
     (''server_ctime'', JNum (Num 1700000000)),
     (''isdir'', JNum (Num 0))]"

definition file_dirent :: dirent where
  "file_dirent =
     \<lparr> dirent_id = JNum (Num 42), dirent_size = JNum (Num 0), dirent_name = JStr ''a.txt'',
       dirent_path = JStr ''/docs/a.txt'', parentPath = ''/docs'',
       atimeMs = NaN, ctimeMs = Num 1700000000000, mtimeMs = NaN,
       birthtimeMs = Num 1700000000000,
       priv_client = sample_client, priv_isDirectory = False \<rparr>"

definition dir_record :: jsval where
  "dir_record = JObj [
     (''fs_id'', JNum (Num 7)),
     (''size'', JNum (Num 0)),
     (''server_filename'', JStr ''docs''),
     (''path'', JStr ''/docs''),
     (''server_mtime'', JNum (Num 1600000000)),
     (''ctime'', JNum (Num 1500000000)),
     (''isdir'', JNum (Num 1))]"

definition dir_dirent :: dirent where
  "dir_dirent =
     \<lparr> dirent_id = JNum (Num 7), dirent_size = JNum (Num 0), dirent_name = JStr ''docs'',
       dirent_path = JStr ''/docs'', parentPath = ''/'',
       atimeMs = NaN, ctimeMs = Num 1500000000000, mtimeMs = Num 1600000000000,
       birthtimeMs = Num 1500000000000,
       priv_client = sample_client, priv_isDirectory = True \<rparr>"

definition quota_response :: jsval where
  "quota_response =
     JObj [(''errno'', JNum (Num 0)), (''used'', JNum (Num 30)), (''total'', JNum (Num 100))]"

text \<open>An upstream that answers every call with success, and a JSON codec that knows the one
  error text of \<open>failing_runtime\<close> below.\<close>

definition error_text :: string where
  "error_text = ''{'' @ quoted ''errno'' @ '':2,'' @ quoted ''errmsg'' @ '':''
                @ quoted ''not found'' @ ''}''"

definition error_envelope :: jsval where
  "error_envelope = JObj [(''errno'', JNum (Num 2)), (''errmsg'', JStr ''not found'')]"

definition sample_parse :: "string \<Rightarrow> jsval result" where
  "sample_parse s = (if s = error_text then Inr error_envelope else Inl SyntaxError)"

definition precreate_response :: jsval where
  "precreate_response = JObj [(''errno'', JNum (Num 0)), (''uploadid'', JStr ''N1-upload'')]"

definition superfile_response :: jsval where
  "superfile_response = JObj [(''md5'', JStr ''0f343b0931126a20f133d67c2b018a3b'')]"

definition sample_upstream :: "string request list \<Rightarrow> string request \<Rightarrow> jsval result" where
  "sample_upstream log req =
     (case endpoint req of
        Quota \<Rightarrow> Inr quota_response
      | ListDir \<Rightarrow> Inr (JObj [(''errno'', JNum (Num 0)), (''list'', JArr [dir_record, file_record])])
      | Precreate \<Rightarrow> Inr precreate_response
      | Superfile \<Rightarrow> Inr superfile_response
      | Create \<Rightarrow> Inr file_record
      | Download \<Rightarrow> Inr (JObj [(''errno'', JNum (Num 0)),
          (''dlink'', JArr [JObj [(''fs_id'', JNum (Num 42)), (''dlink'', JStr ''https://d.terabox.com/42'')]])])
      | Filemanager \<Rightarrow> Inr (JObj [(''errno'', JNum (Num 0))])
      | Streaming \<Rightarrow> Inl SyntaxError
      | HomeInfo \<Rightarrow> Inr (JObj [(''errno'', JNum (Num 0)), (''data'', JObj [
          (''sign1'', JStr ''s1''), (''sign2'', JStr ''function s(j, r) {}''),
          (''sign3'', JStr ''s3''), (''timestamp'', JNum (Num 1700000000))])]))"

definition sample_runtime :: "string runtime" where
  "sample_runtime =
     \<lparr> path = posix,
       JSON_parse = sample_parse,
       JSON_stringify = ToString,
       byteLength = (\<lambda>b. Inr (length b)),
       respond_json = sample_upstream,
       respond_text = (\<lambda>log req. Inr ''#EXTM3U''),
       clock = (\<lambda>log. 1700000000123),
       eval_sign = (\<lambda>sign2 sign3 sign1. Inr [102, 111, 111]) \<rparr>"

text \<open>An upstream that answers every call with the error envelope.\<close>

definition failing_runtime :: "string runtime" where
  "failing_runtime =
     sample_runtime \<lparr> respond_json := (\<lambda>log req. Inr error_envelope),
                      respond_text := (\<lambda>log req. Inr error_text) \<rparr>"

section \<open>Directory entries: properties\<close>

text \<open>What a successful construction stores.\<close>

lemma TeraBoxDirent_InrD:
  assumes "TeraBoxDirent P data client = Inr d"
  shows "dirent_id d = opt_prop data ''fs_id''"
    "dirent_size d = js_or (opt_prop data ''size'') (JNum (Num 0))"
    "dirent_name d = opt_prop data ''server_filename''"
    "dirent_path d = opt_prop data ''path''"
    "ctimeMs d = js_times (js_or (opt_prop data ''server_ctime'') (opt_prop data ''ctime'')) (JNum (Num 1000))"
    "birthtimeMs d = js_times (js_or (opt_prop data ''server_ctime'') (opt_prop data ''ctime'')) (JNum (Num 1000))"
    "priv_isDirectory d = truthy (opt_prop data ''isdir'')"
  using assms
  by (auto simp: TeraBoxDirent_def bind_def get_prop_def path_dirname_def
           split: if_splits jsval.splits)

lemma posix_dirname_file: "posix_dirname ''/docs/a.txt'' = ''/docs''"
  by code_simp

lemma posix_dirname_dir: "posix_dirname ''/docs'' = ''/''"
  by code_simp

lemma file_dirent_constructed:
  "TeraBoxDirent posix file_record sample_client = Inr file_dirent"
  by (simp add: TeraBoxDirent_def file_record_def file_dirent_def bind_def get_prop_def
        path_dirname_def lookup_def js_or_def js_times_def num_times_def
        round_ratio_def posix_def posix_dirname_file)

lemma dir_dirent_constructed:
  "TeraBoxDirent posix dir_record sample_client = Inr dir_dirent"
  by (simp add: TeraBoxDirent_def dir_record_def dir_dirent_def bind_def get_prop_def
        path_dirname_def lookup_def js_or_def js_times_def num_times_def
        round_ratio_def posix_def posix_dirname_dir)

text \<open>C8. For every directory entry exactly one of \<^verbatim>\<open>isFile()\<close> and \<^verbatim>\<open>isDirectory()\<close> is
  true: \<^verbatim>\<open>isFile()\<close> is the negation of \<^verbatim>\<open>isDirectory()\<close>, and both read the one private flag,
  which the constructor sets to the truthiness of the upstream \<^verbatim>\<open>isdir\<close>. No method of the
  class assigns the flag: an entry is a value, and the methods are functions of it.\<close>

theorem isFile_isDirectory_exclusive:
  "isFile d = (\<not> isDirectory d) \<and> isFile d \<noteq> isDirectory d
   \<and> isDirectory d = priv_isDirectory d
   \<and> (TeraBoxDirent P data client = Inr d \<longrightarrow> isDirectory d = truthy (opt_prop data ''isdir''))"
  by (auto simp: isFile_def isDirectory_def dest: TeraBoxDirent_InrD(7))

theorem isFile_isDirectory_exclusive_witness:
  "TeraBoxDirent posix dir_record sample_client = Inr dir_dirent
   \<and> isDirectory dir_dirent \<and> \<not> isFile dir_dirent
   \<and> TeraBoxDirent posix file_record sample_client = Inr file_dirent
   \<and> isFile file_dirent \<and> \<not> isDirectory file_dirent"
proof -
  have dir: "truthy (opt_prop dir_record ''isdir'')"
    by (simp add: dir_record_def lookup_def)
  have fil: "\<not> truthy (opt_prop file_record ''isdir'')"
    by (simp add: file_record_def lookup_def)
  from isFile_isDirectory_exclusive [of dir_dirent posix dir_record sample_client]
    dir_dirent_constructed dir
  have "isDirectory dir_dirent \<and> \<not> isFile dir_dirent" by blast
  moreover
  from isFile_isDirectory_exclusive [of file_dirent posix file_record sample_client]
    file_dirent_constructed fil
  have "isFile file_dirent \<and> \<not> isDirectory file_dirent" by blast
  ultimately show ?thesis
    using dir_dirent_constructed file_dirent_constructed by simp
qed

text \<open>C9. For every constructed directory entry the stored birth-time milliseconds equal
  the stored change-time milliseconds, both being the upstream change time (\<^verbatim>\<open>server_ctime\<close>,
  else \<^verbatim>\<open>ctime\<close>) times 1000, so the \<^verbatim>\<open>birthtime\<close> and \<^verbatim>\<open>ctime\<close> accessors give the same date.\<close>

theorem birthtime_equals_ctime:
  "TeraBoxDirent P data client = Inr d \<Longrightarrow>
     birthtimeMs d = ctimeMs d \<and> birthtime d = ctime d
     \<and> ctimeMs d = js_times (js_or (opt_prop data ''server_ctime'') (opt_prop data ''ctime''))
                      (JNum (Num 1000))"
  by (simp add: birthtime_def ctime_def TeraBoxDirent_InrD(5,6))

theorem birthtime_equals_ctime_witness:
  "TeraBoxDirent posix dir_record sample_client = Inr dir_dirent
   \<and> birthtimeMs dir_dirent = Num 1500000000000 \<and> ctimeMs dir_dirent = Num 1500000000000
   \<and> birthtime dir_dirent = Date 1500000000000 \<and> ctime dir_dirent = Date 1500000000000"
proof -
  have c: "ctimeMs dir_dirent = Num 1500000000000"
    by (simp add: dir_dirent_def)
  have t: "ctime dir_dirent = Date 1500000000000"
    by (simp add: ctime_def c new_Date_def)
  from birthtime_equals_ctime [OF dir_dirent_constructed]
  have "birthtimeMs dir_dirent = ctimeMs dir_dirent" and "birthtime dir_dirent = ctime dir_dirent"
    by simp_all
  with c t dir_dirent_constructed show ?thesis by simp
qed

text \<open>C10. For every directory entry constructed from an upstream record whose \<^verbatim>\<open>size\<close> is
  missing, zero or any other falsy value, the entry's size is the number 0, while name, path
  and id are the upstream \<^verbatim>\<open>server_filename\<close>, \<^verbatim>\<open>path\<close> and \<^verbatim>\<open>fs_id\<close> unchanged.\<close>

theorem missing_size_is_zero:
  "TeraBoxDirent P data client = Inr d \<Longrightarrow> \<not> truthy (opt_prop data ''size'') \<Longrightarrow>
     dirent_size d = JNum (Num 0)
     \<and> dirent_name d = opt_prop data ''server_filename''
     \<and> dirent_path d = opt_prop data ''path''
     \<and> dirent_id d = opt_prop data ''fs_id''"
  by (simp add: TeraBoxDirent_InrD js_or_def)

theorem missing_size_is_zero_witness:
  "TeraBoxDirent posix file_record sample_client = Inr file_dirent
   \<and> opt_prop file_record ''size'' = JUndefined
   \<and> dirent_size file_dirent = JNum (Num 0)
   \<and> dirent_name file_dirent = JStr ''a.txt''
   \<and> dirent_path file_dirent = JStr ''/docs/a.txt''
   \<and> dirent_id file_dirent = JNum (Num 42)"
proof -
  have omitted: "opt_prop file_record ''size'' = JUndefined"
    by (simp add: file_record_def lookup_def)
  have fields: "opt_prop file_record ''server_filename'' = JStr ''a.txt''"
    "opt_prop file_record ''path'' = JStr ''/docs/a.txt''"
    "opt_prop file_record ''fs_id'' = JNum (Num 42)"
    by (simp_all add: file_record_def lookup_def)
  from missing_size_is_zero [OF file_dirent_constructed] omitted
  have "dirent_size file_dirent = JNum (Num 0)
     \<and> dirent_name file_dirent = opt_prop file_record ''server_filename''
     \<and> dirent_path file_dirent = opt_prop file_record ''path''
     \<and> dirent_id file_dirent = opt_prop file_record ''fs_id''"
    by simp
  with omitted fields file_dirent_constructed show ?thesis by simp
qed


section \<open>The client: properties\<close>

lemmas io_defs = io_bind_def io_lift_def fetch_json_def fetch_text_def

text \<open>Whatever the response carries, \<^verbatim>\<open>free\<close> is the Number \<^verbatim>\<open>data.total - data.used\<close>.\<close>

lemma quota_free_is_js_difference:
  assumes "respond_json env log (quota_request c) = Inr data"
    and "get_prop data ''errno'' = Inr (JNum (Num 0))"
  shows "quota env c log =
           (Inr (JObj [(''used'', opt_prop data ''used''), (''total'', opt_prop data ''total''),
                       (''free'', JNum (js_minus (opt_prop data ''total'') (opt_prop data ''used'')))]),
            log @ [quota_request c])"
  using assms by (simp add: quota_def io_defs)

text \<open>The subtraction is that of doubles: beyond \<open>2 ^ 53\<close> it rounds, as at \<open>total = 2 ^ 60\<close>
  and \<open>used = 1\<close>.\<close>

lemma bitlen_eq: "2 ^ k \<le> n \<Longrightarrow> n < 2 ^ Suc k \<Longrightarrow> bitlen n = Suc k"
proof (induction k arbitrary: n)
  case 0
  then have "n = 1" by simp
  then show ?case by (simp add: bitlen.simps)
next
  case (Suc k)
  from Suc.prems have "2 ^ k \<le> n div 2" "n div 2 < 2 ^ Suc k" by auto
  then have "bitlen (n div 2) = Suc k" by (rule Suc.IH)
  moreover from Suc.prems have "n \<noteq> 0" by auto
  ultimately show ?case by (subst bitlen.simps) simp
qed

lemma round_ratio_beyond_safe_range:
  "round_ratio (2 ^ 60 - 1) 1 = Num (2 ^ 60)"
proof -
  have b: "bitlen 1152921504606846975 = 60" "bitlen (Suc 0) = 1"
    using bitlen_eq [of 59 1152921504606846975] bitlen_eq [of 0 1] by simp_all
  have f: "floor_log2 1152921504606846975 (Suc 0) = 59"
    by (simp add: floor_log2_def b)
  have r: "round_half_even 1152921504606846975 128 = 9007199254740992"
    by (simp add: round_half_even_def Let_def)
  have n: "finite_number False 9007199254740992 7 = Num 1152921504606846976"
    by (simp add: finite_number_def)
  show ?thesis
    by (simp add: round_ratio_def f r n Let_def)
qed

lemma js_minus_rounds: "js_minus (JNum (Num (2 ^ 60))) (JNum (Num 1)) = Num (2 ^ 60)"
  using round_ratio_beyond_safe_range by (simp add: js_minus_def num_minus_def)

text \<open>C6. For every quota response with status code zero that carries the numbers
  \<open>used = U\<close> and \<open>total = T\<close>, with \<open>U\<close>, \<open>T\<close> and \<open>T - U\<close> in the range where every integer is
  a Number (magnitude at most \<open>2 ^ 53\<close>), \<^verbatim>\<open>quota()\<close> sends its one request and resolves to
  \<^verbatim>\<open>{used: U, total: T, free: T - U}\<close>.\<close>

theorem quota_free_is_total_minus_used:
  assumes "respond_json env log (quota_request c) = Inr data"
    and "get_prop data ''errno'' = Inr (JNum (Num 0))"
    and "opt_prop data ''used'' = JNum (Num U)"
    and "opt_prop data ''total'' = JNum (Num T)"
    and "\<bar>U\<bar> \<le> 2 ^ 53" and "\<bar>T\<bar> \<le> 2 ^ 53" and "\<bar>T - U\<bar> \<le> 2 ^ 53"
  shows "quota env c log =
           (Inr (JObj [(''used'', JNum (Num U)), (''total'', JNum (Num T)),
                       (''free'', JNum (Num (T - U)))]),
            log @ [quota_request c])"
  using assms by (simp add: quota_def io_defs js_minus_def num_minus_def round_ratio_def)

theorem quota_free_is_total_minus_used_witness:
  "respond_json sample_runtime [] (quota_request sample_client) = Inr quota_response
   \<and> get_prop quota_response ''errno'' = Inr (JNum (Num 0))
   \<and> opt_prop quota_response ''used'' = JNum (Num 30)
   \<and> opt_prop quota_response ''total'' = JNum (Num 100)
   \<and> \<bar>30 :: int\<bar> \<le> 2 ^ 53 \<and> \<bar>100 :: int\<bar> \<le> 2 ^ 53 \<and> \<bar>100 - 30 :: int\<bar> \<le> 2 ^ 53
   \<and> quota sample_runtime sample_client [] =
        (Inr (JObj [(''used'', JNum (Num 30)), (''total'', JNum (Num 100)),
                    (''free'', JNum (Num 70))]),
         [quota_request sample_client])"
proof -
  have r: "respond_json sample_runtime [] (quota_request sample_client) = Inr quota_response"
    by (simp add: sample_runtime_def sample_upstream_def quota_request_def)
  have e: "get_prop quota_response ''errno'' = Inr (JNum (Num 0))"
    by (simp add: get_prop_def quota_response_def lookup_def)
  have u: "opt_prop quota_response ''used'' = JNum (Num 30)"
    by (simp add: quota_response_def lookup_def)
  have t: "opt_prop quota_response ''total'' = JNum (Num 100)"
    by (simp add: quota_response_def lookup_def)
  have b: "\<bar>30 :: int\<bar> \<le> 2 ^ 53" "\<bar>100 :: int\<bar> \<le> 2 ^ 53" "\<bar>100 - 30 :: int\<bar> \<le> 2 ^ 53"
    by simp_all
  from quota_free_is_total_minus_used [OF r e u t b] r e u t show ?thesis by simp
qed

text \<open>The guard of the constructor passes exactly when \<^verbatim>\<open>credentials.ndus\<close> is a non-empty
  string.\<close>

lemma constructor_guard:
  "(\<not> truthy c \<or> \<not> truthy (opt_prop c ''ndus'') \<or> typeof (opt_prop c ''ndus'') \<noteq> ''string'')
     = (\<not> (\<exists>s. s \<noteq> [] \<and> opt_prop c ''ndus'' = JStr s))"
  by (cases c; cases "opt_prop c ''ndus''"; auto)

text \<open>C7, as amended. Constructing a client from a falsy (missing) credentials value, from
  credentials without \<^verbatim>\<open>ndus\<close>, with an \<^verbatim>\<open>ndus\<close> that is not a string, or with the empty string
  as \<^verbatim>\<open>ndus\<close>, throws the configuration error; the constructor makes no request. With a
  non-empty string it succeeds: language, application id, host, block id, user agent and
  access token are the caller's value when truthy and the default otherwise; the browser id
  is stored as given, with no default; the cookie is composed from the caller's browser id,
  language and token as given.\<close>

theorem constructor_requires_nonempty_string_token:
  "(\<not> truthy c \<longrightarrow> (\<exists>msg. TeraBox_constructor c = Inl (Error msg)))
   \<and> (opt_prop c ''ndus'' = JUndefined \<longrightarrow> (\<exists>msg. TeraBox_constructor c = Inl (Error msg)))
   \<and> (typeof (opt_prop c ''ndus'') \<noteq> ''string'' \<longrightarrow> (\<exists>msg. TeraBox_constructor c = Inl (Error msg)))
   \<and> (opt_prop c ''ndus'' = JStr [] \<longrightarrow> (\<exists>msg. TeraBox_constructor c = Inl (Error msg)))
   \<and> (\<forall>s. s \<noteq> [] \<and> opt_prop c ''ndus'' = JStr s \<longrightarrow>
        TeraBox_constructor c = Inr \<lparr>
          ndus = JStr s,
          lang = (if truthy (opt_prop c ''lang'') then opt_prop c ''lang'' else JStr ''en''),
          appId = (if truthy (opt_prop c ''appId'') then opt_prop c ''appId'' else JStr ''250528''),
          browserId = opt_prop c ''browserId'',
          host = (if truthy (opt_prop c ''host'') then opt_prop c ''host''
                  else JStr ''https://terabox.com''),
          blockId = (if truthy (opt_prop c ''blockId'') then opt_prop c ''blockId''
                     else JStr ''5910a591dd8fc18c32a8f3df4fdc1761''),
          cookies = ''browserid='' @ ToString (opt_prop c ''browserId'') @ ''; lang=''
                    @ ToString (opt_prop c ''lang'') @ ''; ndus='' @ s,
          userAgent = (if truthy (opt_prop c ''userAgent'') then opt_prop c ''userAgent''
                       else JStr default_userAgent),
          jsToken = (if truthy (opt_prop c ''jsToken'') then opt_prop c ''jsToken''
                     else JStr default_jsToken) \<rparr>)"
proof -
  have a: "\<not> truthy c \<longrightarrow> (\<exists>msg. TeraBox_constructor c = Inl (Error msg))"
    by (simp add: TeraBox_constructor_def)
  have b: "opt_prop c ''ndus'' = JUndefined \<longrightarrow> (\<exists>msg. TeraBox_constructor c = Inl (Error msg))"
    by (simp add: TeraBox_constructor_def)
  have c': "typeof (opt_prop c ''ndus'') \<noteq> ''string'' \<longrightarrow> (\<exists>msg. TeraBox_constructor c = Inl (Error msg))"
    by (simp add: TeraBox_constructor_def)
  have d: "opt_prop c ''ndus'' = JStr [] \<longrightarrow> (\<exists>msg. TeraBox_constructor c = Inl (Error msg))"
    by (simp add: TeraBox_constructor_def)
  have e: "\<forall>s. s \<noteq> [] \<and> opt_prop c ''ndus'' = JStr s \<longrightarrow>
        TeraBox_constructor c = Inr \<lparr>
          ndus = JStr s,
          lang = (if truthy (opt_prop c ''lang'') then opt_prop c ''lang'' else JStr ''en''),
          appId = (if truthy (opt_prop c ''appId'') then opt_prop c ''appId'' else JStr ''250528''),
          browserId = opt_prop c ''browserId'',
          host = (if truthy (opt_prop c ''host'') then opt_prop c ''host''
                  else JStr ''https://terabox.com''),
          blockId = (if truthy (opt_prop c ''blockId'') then opt_prop c ''blockId''
                     else JStr ''5910a591dd8fc18c32a8f3df4fdc1761''),
          cookies = ''browserid='' @ ToString (opt_prop c ''browserId'') @ ''; lang=''
                    @ ToString (opt_prop c ''lang'') @ ''; ndus='' @ s,
          userAgent = (if truthy (opt_prop c ''userAgent'') then opt_prop c ''userAgent''
                       else JStr default_userAgent),
          jsToken = (if truthy (opt_prop c ''jsToken'') then opt_prop c ''jsToken''
                     else JStr default_jsToken) \<rparr>"
    unfolding TeraBox_constructor_def constructor_guard by (auto simp: js_or_def)
  from a b c' d e show ?thesis by blast
qed

text \<open>C7 as stated fails: the empty string is a string session token, and construction
  throws; and with only a token given the browser id is \<^verbatim>\<open>undefined\<close>, not a default.\<close>

theorem constructor_rejects_empty_token:
  "typeof (JStr []) = ''string''
   \<and> TeraBox_constructor (JObj [(''ndus'', JStr [])]) =
       Inl (Error (''TypeError [ERR_INVALID_ARG_TYPE]: The '' @ quoted ''credentials.ndus''
                   @ '' property must be of type string. Received string''))
   \<and> TeraBox_constructor (JObj [(''ndus'', JStr ''token'')]) = Inr sample_client
   \<and> browserId sample_client = JUndefined"
  by (simp add: TeraBox_constructor_def lookup_def sample_client_def js_or_def)

theorem constructor_requires_nonempty_string_token_witness:
  "(\<exists>msg. TeraBox_constructor JUndefined = Inl (Error msg))
   \<and> (\<exists>msg. TeraBox_constructor (JObj [(''lang'', JStr ''ko'')]) = Inl (Error msg))
   \<and> (\<exists>msg. TeraBox_constructor (JObj [(''ndus'', JNum (Num 5))]) = Inl (Error msg))
   \<and> (\<exists>msg. TeraBox_constructor (JObj [(''ndus'', JStr [])]) = Inl (Error msg))
   \<and> TeraBox_constructor (JObj [(''ndus'', JStr ''token''), (''lang'', JStr ''ko'')]) =
       Inr \<lparr> ndus = JStr ''token'', lang = JStr ''ko'', appId = JStr ''250528'',
             browserId = JUndefined, host = JStr ''https://terabox.com'',
             blockId = JStr ''5910a591dd8fc18c32a8f3df4fdc1761'',
             cookies = ''browserid=undefined; lang=ko; ndus=token'',
             userAgent = JStr default_userAgent, jsToken = JStr default_jsToken \<rparr>"
  using constructor_requires_nonempty_string_token [of JUndefined]
    constructor_requires_nonempty_string_token [of "JObj [(''lang'', JStr ''ko'')]"]
    constructor_requires_nonempty_string_token [of "JObj [(''ndus'', JNum (Num 5))]"]
    constructor_requires_nonempty_string_token [of "JObj [(''ndus'', JStr [])]"]
    constructor_requires_nonempty_string_token [of "JObj [(''ndus'', JStr ''token''), (''lang'', JStr ''ko'')]"]
  by (simp add: lookup_def)

text \<open>The operations that read a JSON envelope reject with the API error of its code and
  message when the code is not the number zero.\<close>

lemma api_error_surfaced:
  assumes "get_prop data ''errno'' = Inr errno" "errno \<noteq> JNum (Num 0)"
  shows "respond_json env log (quota_request c) = Inr data \<Longrightarrow>
           quota env c log = (Inl (api_error data), log @ [quota_request c])"
    and "respond_json env log (list_request c directory) = Inr data \<Longrightarrow>
           list_dir env c directory log = (Inl (api_error data), log @ [list_request c directory])"
    and "respond_json env log (filemanager_request env c ''delete'' paths) = Inr data \<Longrightarrow>
           map_result normalize_filePath (to_array files) = Inr paths \<Longrightarrow>
           delete env c files log =
             (Inl (api_error data), log @ [filemanager_request env c ''delete'' paths])"
    and "respond_json env log (home_request c) = Inr data \<Longrightarrow>
           fetchHome env c log = (Inl (api_error data), log @ [home_request c])"
  using assms
  by (simp_all add: quota_def list_dir_def delete_def fetchHome_def io_defs)

text \<open>\<^verbatim>\<open>stream\<close> resolves to the response text whenever the request itself succeeds (the
  path being a string), whatever the text holds.\<close>

lemma stream_never_rejects_with_api_error:
  assumes "typeof filePath = ''string''"
    and "respond_text env log (stream_request c filePath type) = Inr data"
  shows "stream env c filePath type log = (Inr data, log @ [stream_request c filePath type])"
  using assms
  by (auto simp: stream_def io_defs try_catch_def bind_def split: sum.splits)

text \<open>C1. An operation whose response is a JSON envelope with a non-zero code should reject
  with the API error of that code and message. \<^verbatim>\<open>quota\<close> does; \<^verbatim>\<open>stream\<close>, given the text of the
  envelope \<^verbatim>\<open>{"errno":2,"errmsg":"not found"}\<close>, resolves to that text instead: the error
  thrown at line 283 is caught at line 285.\<close>

theorem stream_returns_error_envelope_text:
  "JSON_parse failing_runtime error_text = Inr error_envelope
   \<and> get_prop error_envelope ''errno'' = Inr (JNum (Num 2))
   \<and> api_error error_envelope = Error ''[ERR_API] 2 not found''
   \<and> stream failing_runtime sample_client (JStr ''/video.mp4'') JUndefined [] =
       (Inr error_text, [stream_request sample_client (JStr ''/video.mp4'') JUndefined])
   \<and> quota failing_runtime sample_client [] =
       (Inl (Error ''[ERR_API] 2 not found''), [quota_request sample_client])"
proof -
  have b: "starts_with_brace error_text"
    by (simp add: starts_with_brace_def error_text_def)
  have p: "JSON_parse failing_runtime error_text = Inr error_envelope"
    by (simp add: failing_runtime_def sample_runtime_def sample_parse_def)
  have e: "get_prop error_envelope ''errno'' = Inr (JNum (Num 2))"
    by (simp add: get_prop_def error_envelope_def lookup_def)
  have m: "api_error error_envelope = Error ''[ERR_API] 2 not found''"
    by (simp add: api_error_def error_envelope_def lookup_def js_or_def dec_int_def
          dec_nat.simps digit_char_def)
  have s: "stream failing_runtime sample_client (JStr ''/video.mp4'') JUndefined [] =
       (Inr error_text, [stream_request sample_client (JStr ''/video.mp4'') JUndefined])"
    by (simp add: stream_def io_defs failing_runtime_def sample_runtime_def sample_parse_def
          b e try_catch_def bind_def)
  have q: "quota failing_runtime sample_client [] =
       (Inl (Error ''[ERR_API] 2 not found''), [quota_request sample_client])"
    by (simp add: quota_def io_defs failing_runtime_def sample_runtime_def e m)
  from p e m s q show ?thesis by simp
qed

subsection \<open>Move\<close>

lemma map_result_total:
  "(\<And>x. x \<in> set xs \<Longrightarrow> f x = Inr (g x)) \<Longrightarrow> map_result f xs = Inr (map g xs)"
  by (induction xs) (simp_all add: bind_def)

lemma move_entry_string:
  "move_entry P (s, JStr p) =
     Inr (JObj [(''path'', JStr s),
                (''dest'', JStr (if dirname P p = ''/'' then [] else dirname P p)),
                (''newname'', JStr (basename P p))])"
  by (simp add: move_entry_def path_dirname_def path_basename_def bind_def)

text \<open>C3. For every entry of the mapping passed to \<^verbatim>\<open>move\<close> whose destination has \<^verbatim>\<open>/\<close> as its
  \<^verbatim>\<open>path.dirname\<close>, the record sent upstream has the empty string as \<^verbatim>\<open>dest\<close>; for any other
  destination \<^verbatim>\<open>dest\<close> is its \<^verbatim>\<open>path.dirname\<close>; \<^verbatim>\<open>newname\<close> is its \<^verbatim>\<open>path.basename\<close>. The
  one request of \<^verbatim>\<open>move\<close> carries the list of these records, in the order of the entries.\<close>

theorem move_encodes_root_parent_as_empty:
  "(dirname (path env) p = ''/'' \<longrightarrow>
      move_entry (path env) (s, JStr p) =
        Inr (JObj [(''path'', JStr s), (''dest'', JStr []),
                   (''newname'', JStr (basename (path env) p))]))
   \<and> (dirname (path env) p \<noteq> ''/'' \<longrightarrow>
      move_entry (path env) (s, JStr p) =
        Inr (JObj [(''path'', JStr s), (''dest'', JStr (dirname (path env) p)),
                   (''newname'', JStr (basename (path env) p))]))
   \<and> snd (move env c (JObj (map (\<lambda>(s, p). (s, JStr p)) sps)) log) =
       log @ [filemanager_request env c ''move''
                (map (\<lambda>(s, p). JObj [(''path'', JStr s),
                        (''dest'', JStr (if dirname (path env) p = ''/'' then []
                                         else dirname (path env) p)),
                        (''newname'', JStr (basename (path env) p))]) sps)]"
proof -
  have m: "map_result (move_entry (path env)) (map (\<lambda>(s, p). (s, JStr p)) sps) =
      Inr (map (\<lambda>(s, p). JObj [(''path'', JStr s),
                        (''dest'', JStr (if dirname (path env) p = ''/'' then []
                                         else dirname (path env) p)),
                        (''newname'', JStr (basename (path env) p))]) sps)"
    by (induction sps) (auto simp: bind_def move_entry_string)
  have "snd (move env c (JObj (map (\<lambda>(s, p). (s, JStr p)) sps)) log) =
       log @ [filemanager_request env c ''move''
                (map (\<lambda>(s, p). JObj [(''path'', JStr s),
                        (''dest'', JStr (if dirname (path env) p = ''/'' then []
                                         else dirname (path env) p)),
                        (''newname'', JStr (basename (path env) p))]) sps)]"
    by (simp add: move_def io_defs m split: sum.splits prod.splits)
  then show ?thesis by (simp add: move_entry_string)
qed

lemma posix_b: "posix_dirname ''/b.txt'' = ''/''" "posix_basename ''/b.txt'' = ''b.txt''"
  "posix_dirname ''/dir/b.txt'' = ''/dir''" "posix_basename ''/dir/b.txt'' = ''b.txt''"
  by code_simp+

theorem move_encodes_root_parent_as_empty_witness:
  "dirname (path sample_runtime) ''/b.txt'' = ''/''
   \<and> move_entry (path sample_runtime) (''/a.txt'', JStr ''/b.txt'') =
       Inr (JObj [(''path'', JStr ''/a.txt''), (''dest'', JStr []), (''newname'', JStr ''b.txt'')])
   \<and> dirname (path sample_runtime) ''/dir/b.txt'' = ''/dir''
   \<and> move_entry (path sample_runtime) (''/a.txt'', JStr ''/dir/b.txt'') =
       Inr (JObj [(''path'', JStr ''/a.txt''), (''dest'', JStr ''/dir''),
                  (''newname'', JStr ''b.txt'')])"
proof -
  have p: "path sample_runtime = posix" by (simp add: sample_runtime_def)
  have d: "dirname (path sample_runtime) ''/b.txt'' = ''/''"
    "basename (path sample_runtime) ''/b.txt'' = ''b.txt''"
    "dirname (path sample_runtime) ''/dir/b.txt'' = ''/dir''"
    "basename (path sample_runtime) ''/dir/b.txt'' = ''b.txt''"
    by (simp_all add: p posix_def posix_b)
  from move_encodes_root_parent_as_empty [of sample_runtime "''/b.txt''" "''/a.txt''"]
    move_encodes_root_parent_as_empty [of sample_runtime "''/dir/b.txt''" "''/a.txt''"]
    d show ?thesis by simp
qed


subsection \<open>Download: decimal rendering and parsing of ids\<close>

lemma digit_char_code: "n < 10 \<Longrightarrow> (of_char (digit_char n) :: nat) = 48 + n"
proof -
  assume "n < 10"
  then have "n < Suc (Suc (Suc (Suc (Suc (Suc (Suc (Suc (Suc (Suc 0)))))))))"
    by simp
  then show ?thesis
    unfolding less_Suc_eq by (auto simp: digit_char_def)
qed

lemma is_digit_digit_char: "n < 10 \<Longrightarrow> is_digit (digit_char n)"
  by (simp add: is_digit_def digit_char_code)

lemma dec_nat_digits: "list_all is_digit (dec_nat n)"
  by (induction n rule: dec_nat.induct)
     (subst dec_nat.simps, simp add: is_digit_digit_char)

lemma dec_nat_nonempty: "dec_nat n \<noteq> []"
  by (subst dec_nat.simps) simp

lemma digits_value_snoc:
  "digits_value (ds @ [c]) = 10 * digits_value ds + (of_char c - 48)"
  by (simp add: digits_value_def)

lemma digits_value_dec_nat: "digits_value (dec_nat n) = n"
proof (induction n rule: dec_nat.induct)
  case (1 n)
  show ?case
  proof (cases "n < 10")
    case True
    then show ?thesis
      by (subst dec_nat.simps) (simp add: digits_value_def digit_char_code)
  next
    case False
    with 1 show ?thesis
      by (subst dec_nat.simps) (simp add: digits_value_snoc digit_char_code)
  qed
qed

lemma is_digit_not_ws: "is_digit c \<Longrightarrow> \<not> is_ws c"
  by (auto simp: is_digit_def is_ws_def)

lemma is_digit_not_sign: "is_digit c \<Longrightarrow> c \<noteq> CHR ''-'' \<and> c \<noteq> CHR ''+''"
  by (auto simp: is_digit_def)

lemma dropWhile_id: "xs \<noteq> [] \<Longrightarrow> \<not> P (hd xs) \<Longrightarrow> dropWhile P xs = xs"
  by (cases xs) auto

lemma trim_id: "s \<noteq> [] \<Longrightarrow> \<not> is_ws (hd s) \<Longrightarrow> \<not> is_ws (last s) \<Longrightarrow> trim s = s"
  by (simp add: trim_def dropWhile_id hd_rev)

lemma is_digit_not_letter:
  "is_digit c \<Longrightarrow> c \<noteq> CHR ''e'' \<and> c \<noteq> CHR ''E'' \<and> c \<noteq> CHR ''.'' \<and> c \<noteq> CHR ''x''
     \<and> c \<noteq> CHR ''X'' \<and> c \<noteq> CHR ''o'' \<and> c \<noteq> CHR ''O'' \<and> c \<noteq> CHR ''b'' \<and> c \<noteq> CHR ''B''
     \<and> c \<noteq> CHR ''I''"
  by (auto simp: is_digit_def)

lemma split_at_none: "\<forall>c\<in>set s. \<not> P c \<Longrightarrow> split_at P s = (s, None)"
  by (simp add: split_at_def takeWhile_eq_all_conv [THEN iffD2] dropWhile_eq_Nil_conv [THEN iffD2])

lemma unsigned_decimal_digits:
  assumes "ds \<noteq> []" "list_all is_digit ds"
  shows "unsigned_decimal ds = round_ratio (int (digits_value ds)) 1"
proof -
  from assms(2) have d: "\<forall>c\<in>set ds. is_digit c" by (simp add: list_all_iff)
  have e: "split_at (\<lambda>c. c = CHR ''e'' \<or> c = CHR ''E'') ds = (ds, None)"
    using d by (intro split_at_none) (auto dest: is_digit_not_letter)
  have p: "split_at (\<lambda>c. c = CHR ''.'') ds = (ds, None)"
    using d by (intro split_at_none) (auto dest: is_digit_not_letter)
  from assms have "is_digit (hd ds)" by (cases ds) auto
  then have i: "ds \<noteq> ''Infinity''" by (auto dest: is_digit_not_letter)
  show ?thesis
    using assms i by (simp add: unsigned_decimal_def e p Let_def)
qed

lemma radix_prefix_digits: "list_all is_digit ds \<Longrightarrow> radix_prefix ds = None"
  by (auto simp: radix_prefix_def split: list.splits dest: is_digit_not_letter)

lemma radix_prefix_minus: "radix_prefix (CHR ''-'' # ds) = None"
  by (simp add: radix_prefix_def split: list.splits)

lemma StringToNumber_digits:
  assumes "ds \<noteq> []" "list_all is_digit ds"
  shows "StringToNumber ds = round_ratio (int (digits_value ds)) 1"
    and "StringToNumber (CHR ''-'' # ds) = negate (round_ratio (int (digits_value ds)) 1)"
proof -
  from assms have h: "is_digit (hd ds)" and l: "is_digit (last ds)"
    by (cases ds, auto simp: list_all_iff)
  have t1: "trim ds = ds"
    using assms h l by (intro trim_id) (auto dest: is_digit_not_ws)
  have "\<not> is_ws CHR ''-''" by (simp add: is_ws_def)
  then have t2: "trim (CHR ''-'' # ds) = CHR ''-'' # ds"
    using assms l by (intro trim_id) (auto dest: is_digit_not_ws)
  show "StringToNumber ds = round_ratio (int (digits_value ds)) 1"
    using assms is_digit_not_sign [OF h]
    by (simp add: StringToNumber_def t1 radix_prefix_digits unsigned_decimal_digits)
  show "StringToNumber (CHR ''-'' # ds) = negate (round_ratio (int (digits_value ds)) 1)"
    using assms
    by (simp add: StringToNumber_def t2 radix_prefix_minus unsigned_decimal_digits)
qed

lemma round_ratio_safe: "\<bar>p\<bar> \<le> 2 ^ 53 \<Longrightarrow> round_ratio p 1 = Num p"
  by (simp add: round_ratio_def)

lemma StringToNumber_dec_int:
  assumes "\<bar>n\<bar> \<le> 2 ^ 53"
  shows "StringToNumber (dec_int n) = Num n"
proof (cases "n < 0")
  case True
  with assms have "\<bar>int (nat (- n))\<bar> \<le> 2 ^ 53" by simp
  then have "round_ratio (int (nat (- n))) 1 = Num (int (nat (- n)))"
    by (rule round_ratio_safe)
  with True show ?thesis
    by (simp add: dec_int_def StringToNumber_digits dec_nat_nonempty dec_nat_digits
          digits_value_dec_nat)
next
  case False
  with assms have "\<bar>int (nat n)\<bar> \<le> 2 ^ 53" by simp
  then have "round_ratio (int (nat n)) 1 = Num (int (nat n))"
    by (rule round_ratio_safe)
  with False show ?thesis
    by (simp add: dec_int_def StringToNumber_digits dec_nat_nonempty dec_nat_digits
          digits_value_dec_nat)
qed

lemma ToString_safe_integer: "\<bar>n\<bar> \<le> 2 ^ 53 \<Longrightarrow> ToString (JNum (Num n)) = dec_int n"
  by simp

lemma normalize_fileId_cases:
  "normalize_fileId (Plain (JNum m)) = Inr (JNum m)"
  "\<bar>n\<bar> \<le> 2 ^ 53 \<Longrightarrow> normalize_fileId (Plain (JStr (ToString (JNum (Num n))))) = Inr (JNum (Num n))"
  "normalize_fileId (Instance d) = Inr (dirent_id d)"
  by (simp_all add: normalize_fileId_def Number_def StringToNumber_dec_int)

lemma download_request_sent:
  assumes "map_result normalize_fileId (to_array fileIds) = Inr ids"
    and "sign env c log = (Inr sg, log1)"
  shows "snd (download env c fileIds log) = log1 @ [download_request env c ids sg]"
  using assms
  by (simp add: download_def io_defs split: sum.splits jsval.splits prod.splits)

text \<open>The parser on literals that are not a plain run of digits, and on a run of digits
  that is no double.\<close>

lemma StringToNumber_literals:
  "StringToNumber ''1e3'' = Num 1000"
  "StringToNumber ''0x10'' = Num 16"
  "StringToNumber ''12.0'' = Num 12"
  "StringToNumber ''Infinity'' = PosInf"
  "StringToNumber ''12px'' = NaN"
  by (simp_all add: StringToNumber_def trim_def is_ws_def radix_prefix_def unsigned_decimal_def
        split_at_def signed_integer_def is_digit_def digits_value_def round_ratio_def
        radix_value_def radix_digit_def Let_def)

lemma StringToNumber_rounds: "StringToNumber ''9007199254740993'' = Num 9007199254740992"
proof -
  have d: "list_all is_digit ''9007199254740993''"
    by (simp add: is_digit_def)
  have v: "digits_value ''9007199254740993'' = 9007199254740993"
    by (simp add: digits_value_def)
  have b: "bitlen 9007199254740993 = 54" "bitlen (Suc 0) = 1"
    using bitlen_eq [of 53 9007199254740993] bitlen_eq [of 0 1] by simp_all
  have f: "floor_log2 9007199254740993 (Suc 0) = 53"
    by (simp add: floor_log2_def b)
  have r: "round_half_even 9007199254740993 2 = 4503599627370496"
    by (simp add: round_half_even_def Let_def)
  have n: "finite_number False 4503599627370496 1 = Num 9007199254740992"
    by (simp add: finite_number_def)
  have "round_ratio 9007199254740993 1 = Num 9007199254740992"
    by (simp add: round_ratio_def f r n Let_def)
  with StringToNumber_digits(1) [OF _ d] v show ?thesis by simp
qed

lemma normalize_fileId_invalid:
  "typeof v \<noteq> ''number'' \<Longrightarrow> typeof v \<noteq> ''string'' \<Longrightarrow>
     \<exists>msg. normalize_fileId (Plain v) = Inl (Error msg)"
  by (simp add: normalize_fileId_def arg_type_error_def)

lemma normalize_fileId_outcome:
  "(\<exists>w. normalize_fileId a = Inr w) \<or> (\<exists>msg. normalize_fileId a = Inl (Error msg))"
  by (cases a) (auto simp: normalize_fileId_def arg_type_error_def)

lemma map_result_first_error:
  assumes "a \<in> set xs" "\<exists>msg. normalize_fileId a = Inl (Error msg)"
  shows "\<exists>msg. map_result normalize_fileId xs = Inl (Error msg)"
  using assms
proof (induction xs)
  case Nil
  then show ?case by simp
next
  case (Cons x xs)
  show ?case
  proof (cases "normalize_fileId x")
    case (Inl e)
    with normalize_fileId_outcome [of x] show ?thesis by (auto simp: bind_def)
  next
    case (Inr w)
    with Cons have "\<exists>msg. map_result normalize_fileId xs = Inl (Error msg)" by auto
    with Inr show ?thesis by (auto simp: bind_def)
  qed
qed

text \<open>C4. For an integer \<open>n\<close> up to \<open>2 ^ 53\<close> in magnitude, a directory entry with id \<open>n\<close>, the
  number \<open>n\<close> and the string that \<open>n\<close> prints as are normalised by \<^verbatim>\<open>download\<close> to the same
  number \<open>n\<close>, alone or in an array, so the three calls behave alike; once \<^verbatim>\<open>#sign()\<close> has
  succeeded, the request for the links is sent with exactly the normalised ids, whichever
  form was passed; an element that is a plain value and neither a number nor a string makes
  \<^verbatim>\<open>download\<close> throw the argument error with the request log unchanged.\<close>

theorem download_normalizes_file_ids:
  assumes "\<bar>n\<bar> \<le> 2 ^ 53"
  shows
  "(dirent_id d = JNum (Num n) \<longrightarrow>
      map_result normalize_fileId (to_array (Single (Instance d))) = Inr [JNum (Num n)]
      \<and> download env c (Single (Instance d)) = download env c (Single (Plain (JNum (Num n))))
      \<and> map_result normalize_fileId
          (to_array (Array [Instance d, Plain (JNum (Num n)),
                            Plain (JStr (ToString (JNum (Num n))))])) =
          Inr [JNum (Num n), JNum (Num n), JNum (Num n)])
   \<and> map_result normalize_fileId (to_array (Single (Plain (JNum (Num n))))) = Inr [JNum (Num n)]
   \<and> map_result normalize_fileId (to_array (Single (Plain (JStr (ToString (JNum (Num n))))))) =
       Inr [JNum (Num n)]
   \<and> download env c (Single (Plain (JStr (ToString (JNum (Num n)))))) =
       download env c (Single (Plain (JNum (Num n))))
   \<and> (sign env c log = (Inr sg, log1) \<longrightarrow>
        snd (download env c (Single (Plain (JNum (Num n)))) log) =
          log1 @ [download_request env c [JNum (Num n)] sg]
        \<and> snd (download env c (Single (Plain (JStr (ToString (JNum (Num n)))))) log) =
          log1 @ [download_request env c [JNum (Num n)] sg]
        \<and> (dirent_id d = JNum (Num n) \<longrightarrow>
             snd (download env c (Single (Instance d)) log) =
               log1 @ [download_request env c [JNum (Num n)] sg]
             \<and> snd (download env c (Array [Instance d, Plain (JNum (Num n)),
                                           Plain (JStr (ToString (JNum (Num n))))]) log) =
               log1 @ [download_request env c [JNum (Num n), JNum (Num n), JNum (Num n)] sg]))
   \<and> (Plain v \<in> set (to_array fileIds) \<and> typeof v \<noteq> ''number'' \<and> typeof v \<noteq> ''string'' \<longrightarrow>
        (\<exists>msg. download env c fileIds log = (Inl (Error msg), log)))"
proof -
  let ?s = "Plain (JStr (ToString (JNum (Num n))))"
  have i: "dirent_id d = JNum (Num n) \<Longrightarrow>
      map_result normalize_fileId (to_array (Single (Instance d))) = Inr [JNum (Num n)]"
    by (simp add: bind_def normalize_fileId_cases)
  have n: "map_result normalize_fileId (to_array (Single (Plain (JNum (Num n))))) =
      Inr [JNum (Num n)]"
    by (simp add: bind_def normalize_fileId_cases)
  have s: "map_result normalize_fileId (to_array (Single ?s)) = Inr [JNum (Num n)]"
    using assms by (simp add: bind_def normalize_fileId_cases del: ToString.simps)
  have a: "dirent_id d = JNum (Num n) \<Longrightarrow> map_result normalize_fileId
          (to_array (Array [Instance d, Plain (JNum (Num n)), ?s])) =
          Inr [JNum (Num n), JNum (Num n), JNum (Num n)]"
    using assms by (simp add: bind_def normalize_fileId_cases del: ToString.simps)
  have di: "dirent_id d = JNum (Num n) \<Longrightarrow>
      download env c (Single (Instance d)) = download env c (Single (Plain (JNum (Num n))))"
    unfolding download_def by (simp only: i n)
  have ds: "download env c (Single ?s) = download env c (Single (Plain (JNum (Num n))))"
    unfolding download_def by (simp only: s n)
  have r: "sign env c log = (Inr sg, log1) \<longrightarrow>
        snd (download env c (Single (Plain (JNum (Num n)))) log) =
          log1 @ [download_request env c [JNum (Num n)] sg]
        \<and> snd (download env c (Single ?s) log) =
          log1 @ [download_request env c [JNum (Num n)] sg]
        \<and> (dirent_id d = JNum (Num n) \<longrightarrow>
             snd (download env c (Single (Instance d)) log) =
               log1 @ [download_request env c [JNum (Num n)] sg]
             \<and> snd (download env c (Array [Instance d, Plain (JNum (Num n)), ?s]) log) =
               log1 @ [download_request env c [JNum (Num n), JNum (Num n), JNum (Num n)] sg])"
    using download_request_sent [OF n, of env c log sg log1]
      download_request_sent [OF s, of env c log sg log1]
      download_request_sent [OF i, of env c log sg log1]
      download_request_sent [OF a, of env c log sg log1]
    by blast
  have e: "Plain v \<in> set (to_array fileIds) \<and> typeof v \<noteq> ''number'' \<and> typeof v \<noteq> ''string'' \<longrightarrow>
        (\<exists>msg. download env c fileIds log = (Inl (Error msg), log))"
  proof
    assume h: "Plain v \<in> set (to_array fileIds) \<and> typeof v \<noteq> ''number'' \<and> typeof v \<noteq> ''string''"
    then obtain msg where "map_result normalize_fileId (to_array fileIds) = Inl (Error msg)"
      using map_result_first_error [of "Plain v" "to_array fileIds"] normalize_fileId_invalid [of v]
      by blast
    then show "\<exists>msg. download env c fileIds log = (Inl (Error msg), log)"
      by (simp add: download_def io_defs)
  qed
  from i n s a di ds r e show ?thesis by blast
qed

lemma dec_int_42: "dec_int 42 = ''42''"
  by (simp add: dec_int_def dec_nat.simps digit_char_def)

lemma sample_sign:
  "sign sample_runtime sample_client [] =
     (Inr (sign_encode [102, 111, 111], JNum (Num 1700000000)), [home_request sample_client])"
  by (simp add: sign_def fetchHome_def io_defs sample_runtime_def sample_upstream_def
        home_request_def get_prop_def lookup_def)

theorem download_normalizes_file_ids_witness:
  "\<bar>42 :: int\<bar> \<le> 2 ^ 53
   \<and> dirent_id file_dirent = JNum (Num 42)
   \<and> ToString (JNum (Num 42)) = ''42''
   \<and> map_result normalize_fileId (to_array (Single (Instance file_dirent))) = Inr [JNum (Num 42)]
   \<and> map_result normalize_fileId (to_array (Single (Plain (JStr ''42'')))) = Inr [JNum (Num 42)]
   \<and> download sample_runtime sample_client (Single (Plain (JStr ''42''))) =
       download sample_runtime sample_client (Single (Instance file_dirent))
   \<and> sign sample_runtime sample_client [] =
       (Inr (sign_encode [102, 111, 111], JNum (Num 1700000000)), [home_request sample_client])
   \<and> snd (download sample_runtime sample_client (Single (Instance file_dirent)) []) =
       [home_request sample_client,
        download_request sample_runtime sample_client [JNum (Num 42)]
          (sign_encode [102, 111, 111], JNum (Num 1700000000))]
   \<and> snd (download sample_runtime sample_client (Single (Plain (JStr ''42''))) []) =
       [home_request sample_client,
        download_request sample_runtime sample_client [JNum (Num 42)]
          (sign_encode [102, 111, 111], JNum (Num 1700000000))]
   \<and> typeof (JBool True) = ''boolean''
   \<and> (\<exists>msg. download sample_runtime sample_client
               (Array [Plain (JNum (Num 1)), Plain (JBool True)]) [] = (Inl (Error msg), []))"
proof -
  have b: "\<bar>42 :: int\<bar> \<le> 2 ^ 53" by simp
  have i: "dirent_id file_dirent = JNum (Num 42)"
    by (simp add: file_dirent_def)
  have t: "ToString (JNum (Num 42)) = ''42''"
    by (simp add: dec_int_42)
  have m: "Plain (JBool True) \<in> set (to_array (Array [Plain (JNum (Num 1)), Plain (JBool True)]))"
    by simp
  have y: "typeof (JBool True) = ''boolean''" by simp
  note w = download_normalizes_file_ids [OF b, of file_dirent sample_runtime sample_client "[]"
      "(sign_encode [102, 111, 111], JNum (Num 1700000000))" "[home_request sample_client]"
      "JBool True" "Array [Plain (JNum (Num 1)), Plain (JBool True)]", unfolded t]
  from w i m sample_sign have
    "map_result normalize_fileId (to_array (Single (Instance file_dirent))) = Inr [JNum (Num 42)]"
    "map_result normalize_fileId (to_array (Single (Plain (JStr ''42'')))) = Inr [JNum (Num 42)]"
    "download sample_runtime sample_client (Single (Plain (JStr ''42''))) =
       download sample_runtime sample_client (Single (Instance file_dirent))"
    "snd (download sample_runtime sample_client (Single (Instance file_dirent)) []) =
       [home_request sample_client] @
       [download_request sample_runtime sample_client [JNum (Num 42)]
          (sign_encode [102, 111, 111], JNum (Num 1700000000))]"
    "snd (download sample_runtime sample_client (Single (Plain (JStr ''42''))) []) =
       [home_request sample_client] @
       [download_request sample_runtime sample_client [JNum (Num 42)]
          (sign_encode [102, 111, 111], JNum (Num 1700000000))]"
    "\<exists>msg. download sample_runtime sample_client
               (Array [Plain (JNum (Num 1)), Plain (JBool True)]) [] = (Inl (Error msg), [])"
    by simp_all
  with b i t y sample_sign show ?thesis by simp
qed

subsection \<open>Upload\<close>

lemma endpoint_upload_requests:
  "endpoint (precreate_request c filePath targetPath byte_size now) = Precreate"
  "endpoint (superfile_request c filePath fileBody base data_precreate) = Superfile"
  "endpoint (create_request c filePath targetPath byte_size data_precreate md5 now) = Create"
  by (simp_all add: precreate_request_def superfile_request_def create_request_def)

text \<open>C5. In every execution of \<^verbatim>\<open>upload\<close> the requests it adds to the log are a prefix of
  precreate, transfer, finalize, in this order. The transfer is only sent after precreate
  returned status code zero; the finalize only after that and after the transfer returned a
  truthy checksum; when precreate fails (the fetch rejects, or the code is not zero) the
  precreate request is the only one and \<^verbatim>\<open>upload\<close> rejects.\<close>

theorem upload_steps_in_sequence:
  assumes "upload env c filePath fileBody log = (r, log')"
  shows "\<exists>new. log' = log @ new
     \<and> map endpoint new \<in> {[], [Precreate], [Precreate, Superfile], [Precreate, Superfile, Create]}
     \<and> (Superfile \<in> set (map endpoint new) \<longrightarrow> precreate_ok env log (new ! 0))
     \<and> (Create \<in> set (map endpoint new) \<longrightarrow>
          precreate_ok env log (new ! 0) \<and> transfer_ok env (log @ [new ! 0]) (new ! 1))
     \<and> (new \<noteq> [] \<and> \<not> precreate_ok env log (new ! 0) \<longrightarrow>
          map endpoint new = [Precreate] \<and> (\<exists>e. r = Inl e))"
proof -
  define Q where "Q = (\<lambda>new. log' = log @ new
     \<and> map endpoint new \<in> {[], [Precreate], [Precreate, Superfile], [Precreate, Superfile, Create]}
     \<and> (Superfile \<in> set (map endpoint new) \<longrightarrow> precreate_ok env log (new ! 0))
     \<and> (Create \<in> set (map endpoint new) \<longrightarrow>
          precreate_ok env log (new ! 0) \<and> transfer_ok env (log @ [new ! 0]) (new ! 1))
     \<and> (new \<noteq> [] \<and> \<not> precreate_ok env log (new ! 0) \<longrightarrow>
          map endpoint new = [Precreate] \<and> (\<exists>e. r = Inl e)))"
  have fin: "?thesis" if "Q new" for new
    using that unfolding Q_def by (rule exI [of _ new])
  show ?thesis
  proof (cases "byteLength env fileBody")
    case (Inl e)
    with assms have "log' = log" by (simp add: upload_def io_defs)
    then have "Q []" by (simp add: Q_def)
    then show ?thesis by (rule fin)
  next
    case bl: (Inr sz)
    show ?thesis
    proof (cases "path_dirname (path env) filePath")
      case (Inl e)
      with assms bl have "log' = log" by (simp add: upload_def io_defs)
      then have "Q []" by (simp add: Q_def)
      then show ?thesis by (rule fin)
    next
      case dn: (Inr dir)
      define tp where "tp = (if \<not> ends_with_slash dir then dir @ ''/'' else dir)"
      define pre :: "'a request"
        where "pre = precreate_request c filePath tp sz (clock env log)"
      have ep: "endpoint pre = Precreate"
        by (simp add: pre_def endpoint_upload_requests)
      show ?thesis
      proof (cases "precreate_ok env log pre")
        case False
        have "log' = log @ [pre] \<and> (\<exists>e. r = Inl e)"
          using assms False
          by (auto simp add: upload_def io_defs bl dn Let_def tp_def [symmetric]
                pre_def [symmetric] precreate_ok_def split: sum.splits if_splits)
        with False have "Q [pre]" by (simp add: Q_def ep)
        then show ?thesis by (rule fin)
      next
        case pok: True
        then obtain d where rd: "respond_json env log pre = Inr d"
          and er: "get_prop d ''errno'' = Inr (JNum (Num 0))"
          by (auto simp: precreate_ok_def split: sum.splits)
        show ?thesis
        proof (cases "path_basename (path env) filePath")
          case (Inl e)
          with assms have "log' = log @ [pre]"
            by (simp add: upload_def io_defs bl dn Let_def tp_def [symmetric]
                  pre_def [symmetric] rd er)
          with pok have "Q [pre]" by (simp add: Q_def ep)
          then show ?thesis by (rule fin)
        next
          case bn: (Inr base)
          define sup :: "'a request"
            where "sup = superfile_request c filePath fileBody base d"
          have es: "endpoint sup = Superfile"
            by (simp add: sup_def endpoint_upload_requests)
          show ?thesis
          proof (cases "transfer_ok env (log @ [pre]) sup")
            case False
            have "log' = log @ [pre, sup]"
              using assms False
              by (auto simp add: upload_def io_defs bl dn Let_def tp_def [symmetric]
                    pre_def [symmetric] rd er bn sup_def [symmetric] transfer_ok_def
                    split: sum.splits if_splits)
            with pok have "Q [pre, sup]" by (simp add: Q_def ep es)
            then show ?thesis by (rule fin)
          next
            case tok: True
            then obtain d2 md5 where rs: "respond_json env (log @ [pre]) sup = Inr d2"
              and m: "get_prop d2 ''md5'' = Inr md5" and tm: "truthy md5"
              by (auto simp: transfer_ok_def split: sum.splits)
            define cre :: "'a request"
              where "cre = create_request c filePath tp sz d md5 (clock env (log @ [pre, sup]))"
            have ec: "endpoint cre = Create"
              by (simp add: cre_def endpoint_upload_requests)
            have "log' = log @ [pre, sup, cre]"
              using assms
              by (auto simp add: upload_def io_defs bl dn Let_def tp_def [symmetric]
                    pre_def [symmetric] rd er bn sup_def [symmetric] rs m tm
                    cre_def [symmetric] split: sum.splits if_splits)
            with pok tok have "Q [pre, sup, cre]" by (simp add: Q_def ep es ec)
            then show ?thesis by (rule fin)
          qed
        qed
      qed
    qed
  qed
qed


lemma posix_basename_file: "posix_basename ''/docs/a.txt'' = ''a.txt''"
  by code_simp

theorem upload_steps_in_sequence_witness:
  "upload failing_runtime sample_client (JStr ''/docs/a.txt'') ''hello'' [] =
     (Inl (Error ''[ERR_API] 2 not found''),
      [precreate_request sample_client (JStr ''/docs/a.txt'') ''/docs/'' 5 1700000000123])
   \<and> \<not> precreate_ok failing_runtime []
         (precreate_request sample_client (JStr ''/docs/a.txt'') ''/docs/'' 5 1700000000123)
   \<and> upload sample_runtime sample_client (JStr ''/docs/a.txt'') ''hello'' [] =
     (Inr file_dirent,
      [precreate_request sample_client (JStr ''/docs/a.txt'') ''/docs/'' 5 1700000000123,
       superfile_request sample_client (JStr ''/docs/a.txt'') ''hello'' ''a.txt''
         precreate_response,
       create_request sample_client (JStr ''/docs/a.txt'') ''/docs/'' 5 precreate_response
         (JStr ''0f343b0931126a20f133d67c2b018a3b'') 1700000000123])
   \<and> precreate_ok sample_runtime []
         (precreate_request sample_client (JStr ''/docs/a.txt'') ''/docs/'' 5 1700000000123)
   \<and> transfer_ok sample_runtime
         [precreate_request sample_client (JStr ''/docs/a.txt'') ''/docs/'' 5 1700000000123]
         (superfile_request sample_client (JStr ''/docs/a.txt'') ''hello'' ''a.txt''
            precreate_response)"
proof -
  have e: "get_prop error_envelope ''errno'' = Inr (JNum (Num 2))"
    by (simp add: get_prop_def error_envelope_def lookup_def)
  have m: "api_error error_envelope = Error ''[ERR_API] 2 not found''"
    by (simp add: api_error_def error_envelope_def lookup_def js_or_def dec_int_def
          dec_nat.simps digit_char_def)
  have pr: "get_prop precreate_response ''errno'' = Inr (JNum (Num 0))"
    by (simp add: get_prop_def precreate_response_def lookup_def)
  have sr: "get_prop superfile_response ''md5'' = Inr (JStr ''0f343b0931126a20f133d67c2b018a3b'')"
    by (simp add: get_prop_def superfile_response_def lookup_def)
  have fr: "get_prop file_record ''errno'' = Inr (JNum (Num 0))"
    by (simp add: get_prop_def file_record_def lookup_def)
  have env: "path sample_runtime = posix" "byteLength sample_runtime ''hello'' = Inr 5"
    "clock sample_runtime = (\<lambda>log. 1700000000123)"
    "respond_json sample_runtime = sample_upstream"
    "path failing_runtime = posix" "byteLength failing_runtime ''hello'' = Inr 5"
    "clock failing_runtime = (\<lambda>log. 1700000000123)"
    "respond_json failing_runtime = (\<lambda>log req. Inr error_envelope)"
    by (simp_all add: sample_runtime_def failing_runtime_def)
  have dn: "path_dirname posix (JStr ''/docs/a.txt'') = Inr ''/docs''"
    "path_basename posix (JStr ''/docs/a.txt'') = Inr ''a.txt''"
    by (simp_all add: path_dirname_def path_basename_def posix_def posix_dirname_file
          posix_basename_file)
  have sl: "\<not> ends_with_slash ''/docs''"
    by (simp add: ends_with_slash_def)
  have bad: "upload failing_runtime sample_client (JStr ''/docs/a.txt'') ''hello'' [] =
     (Inl (Error ''[ERR_API] 2 not found''),
      [precreate_request sample_client (JStr ''/docs/a.txt'') ''/docs/'' 5 1700000000123])"
    by (simp add: upload_def Let_def io_defs env dn sl e m)
  have good: "upload sample_runtime sample_client (JStr ''/docs/a.txt'') ''hello'' [] =
     (Inr file_dirent,
      [precreate_request sample_client (JStr ''/docs/a.txt'') ''/docs/'' 5 1700000000123,
       superfile_request sample_client (JStr ''/docs/a.txt'') ''hello'' ''a.txt''
         precreate_response,
       create_request sample_client (JStr ''/docs/a.txt'') ''/docs/'' 5 precreate_response
         (JStr ''0f343b0931126a20f133d67c2b018a3b'') 1700000000123])"
    by (simp add: upload_def Let_def io_defs env dn sl sample_upstream_def endpoint_upload_requests
          pr sr fr file_dirent_constructed)
  from upload_steps_in_sequence [OF bad]
  have nok: "\<not> precreate_ok failing_runtime []
         (precreate_request sample_client (JStr ''/docs/a.txt'') ''/docs/'' 5 1700000000123)"
    by (simp add: precreate_ok_def env e)
  from upload_steps_in_sequence [OF good]
  have ok: "precreate_ok sample_runtime []
         (precreate_request sample_client (JStr ''/docs/a.txt'') ''/docs/'' 5 1700000000123)
     \<and> transfer_ok sample_runtime
         [precreate_request sample_client (JStr ''/docs/a.txt'') ''/docs/'' 5 1700000000123]
         (superfile_request sample_client (JStr ''/docs/a.txt'') ''hello'' ''a.txt''
            precreate_response)"
    by (auto simp: endpoint_upload_requests)
  from bad good nok ok show ?thesis by simp
qed


subsection \<open>The signature encoder\<close>

text \<open>The bit operations of the loop, as arithmetic.\<close>

lemma and_low_bits:
  "(3::nat) AND a = a mod 4" "(15::nat) AND a = a mod 16"
  "(63::nat) AND a = a mod 64" "(255::nat) AND a = a mod 256"
proof -
  have m: "(3::nat) = mask 2" "(15::nat) = mask 4" "(63::nat) = mask 6" "(255::nat) = mask 8"
    by (simp_all add: mask_eq_exp_minus_1)
  show "(3::nat) AND a = a mod 4" "(15::nat) AND a = a mod 16"
    "(63::nat) AND a = a mod 64" "(255::nat) AND a = a mod 256"
    unfolding m by (simp_all add: and.commute [of "mask _"] flip: take_bit_eq_mask)
       (simp_all add: take_bit_eq_mod)
qed

lemma and_high_bits:
  "drop_bit 4 ((240::nat) AND r) = (r div 16) mod 16"
  "drop_bit 6 ((192::nat) AND r) = (r div 64) mod 4"
proof -
  have "drop_bit 4 (240::nat) = 15" "drop_bit 6 (192::nat) = 3"
    by (simp_all add: drop_bit_eq_div)
  then have h: "drop_bit 4 ((240::nat) AND r) = 15 AND drop_bit 4 r"
    "drop_bit 6 ((192::nat) AND r) = 3 AND drop_bit 6 r"
    by (simp_all only: drop_bit_and)
  show "drop_bit 4 ((240::nat) AND r) = (r div 16) mod 16"
    unfolding h by (simp add: and_low_bits drop_bit_eq_div)
  show "drop_bit 6 ((192::nat) AND r) = (r div 64) mod 4"
    unfolding h by (simp add: and_low_bits drop_bit_eq_div)
qed

lemma push_bit_or_low:
  assumes "y < 2 ^ n"
  shows "push_bit n x OR y = x * 2 ^ n + (y::nat)"
proof -
  have y: "take_bit n y = y"
    using assms by (simp add: take_bit_nat_eq_self)
  have "push_bit n x AND take_bit n y = 0"
    by (rule bit_eqI) (auto simp: bit_and_iff bit_take_bit_iff bit_push_bit_iff)
  then have "push_bit n x + y = push_bit n x OR y"
    unfolding y by (rule disjunctive_add_eq_or)
  then show ?thesis
    by (simp add: push_bit_eq_mult)
qed


lemma upt_small: "[0..<2] = [0, 1]" "[0..<3] = [0, 1, 2]" "[0..<4] = [0, 1, 2, 3]"
  by (simp_all add: upt_rec)

lemma sextets_unfold:
  "sextets 2 n = [n div 64 mod 64, n mod 64]"
  "sextets 3 n = [n div 4096 mod 64, n div 64 mod 64, n mod 64]"
  "sextets 4 n = [n div 262144 mod 64, n div 4096 mod 64, n div 64 mod 64, n mod 64]"
  by (simp_all add: sextets_def upt_small)

lemma div_mod_decomp:
  "x < k \<Longrightarrow> n = q * k + x \<Longrightarrow> n div k = q \<and> n mod k = (x::nat)"
  by simp

lemma group3:
  fixes a b c :: nat
  assumes "a < 256" "b < 256" "c < 256"
  shows "(a * 65536 + b * 256 + c) div 262144 mod 64 = a div 4"
    and "(a * 65536 + b * 256 + c) div 4096 mod 64 = a mod 4 * 16 + b div 16"
    and "(a * 65536 + b * 256 + c) div 64 mod 64 = b mod 16 * 4 + c div 64"
    and "(a * 65536 + b * 256 + c) mod 64 = c mod 64"
proof -
  define a1 a0 b1 b0 c1 c0
    where "a1 = a div 4" and "a0 = a mod 4" and "b1 = b div 16" and "b0 = b mod 16"
      and "c1 = c div 64" and "c0 = c mod 64"
  have d: "a = a1 * 4 + a0" "b = b1 * 16 + b0" "c = c1 * 64 + c0"
    by (simp_all add: a1_def a0_def b1_def b0_def c1_def c0_def)
  have l: "a0 < 4" "b0 < 16" "c0 < 64" "a1 < 64" "b1 < 16" "c1 < 4"
    using assms by (simp_all add: a1_def a0_def b1_def b0_def c1_def c0_def div_less_iff_less_mult)
  let ?n = "a * 65536 + b * 256 + c"
  have x: "a0 * 16 + b1 < 64" "b0 * 4 + c1 < 64"
    using l by simp_all
  have "?n div 262144 = a1"
    using l by (intro div_mod_decomp [THEN conjunct1,
        of "a0 * 65536 + b1 * 4096 + b0 * 256 + c1 * 64 + c0"]) (simp_all add: d)
  then show "?n div 262144 mod 64 = a div 4"
    using l by (simp add: a1_def)
  have "?n div 4096 = a1 * 64 + (a0 * 16 + b1)"
    using l by (intro div_mod_decomp [THEN conjunct1, of "b0 * 256 + c1 * 64 + c0"])
      (simp_all add: d)
  then have "?n div 4096 mod 64 = a0 * 16 + b1"
    using x(1) by (simp only: mod_mult_self3 mod_less)
  then show "?n div 4096 mod 64 = a mod 4 * 16 + b div 16"
    by (simp only: a0_def b1_def)
  have "?n div 64 = (a1 * 64 + a0 * 16 + b1) * 64 + (b0 * 4 + c1)"
    using l by (intro div_mod_decomp [THEN conjunct1, of c0]) (simp_all add: d)
  then have "?n div 64 mod 64 = b0 * 4 + c1"
    using x(2) by (simp only: mod_mult_self3 mod_less)
  then show "?n div 64 mod 64 = b mod 16 * 4 + c div 64"
    by (simp only: b0_def c1_def)
  have "?n mod 64 = c0"
    using l by (intro div_mod_decomp [THEN conjunct2,
        of _ _ _ "(a1 * 64 + a0 * 16 + b1) * 64 + (b0 * 4 + c1)"]) (simp_all add: d)
  then show "?n mod 64 = c mod 64"
    by (simp add: c0_def)
qed

lemma group2:
  fixes a b :: nat
  assumes "a < 256" "b < 256"
  shows "(a * 256 + b) * 4 div 4096 mod 64 = a div 4"
    and "(a * 256 + b) * 4 div 64 mod 64 = a mod 4 * 16 + b div 16"
    and "(a * 256 + b) * 4 mod 64 = b mod 16 * 4"
proof -
  define a1 a0 b1 b0
    where "a1 = a div 4" and "a0 = a mod 4" and "b1 = b div 16" and "b0 = b mod 16"
  have d: "a = a1 * 4 + a0" "b = b1 * 16 + b0"
    by (simp_all add: a1_def a0_def b1_def b0_def)
  have l: "a0 < 4" "b0 < 16" "a1 < 64" "b1 < 16"
    using assms by (simp_all add: a1_def a0_def b1_def b0_def div_less_iff_less_mult)
  let ?n = "(a * 256 + b) * 4"
  have x: "a0 * 16 + b1 < 64" "b0 * 4 < 64"
    using l by simp_all
  have "?n div 4096 = a1"
    using l by (intro div_mod_decomp [THEN conjunct1, of "a0 * 1024 + b1 * 64 + b0 * 4"])
      (simp_all add: d)
  then show "?n div 4096 mod 64 = a div 4"
    using l by (simp add: a1_def)
  have "?n div 64 = a1 * 64 + (a0 * 16 + b1)"
    using l by (intro div_mod_decomp [THEN conjunct1, of "b0 * 4"]) (simp_all add: d)
  then have "?n div 64 mod 64 = a0 * 16 + b1"
    using x(1) by (simp only: mod_mult_self3 mod_less)
  then show "?n div 64 mod 64 = a mod 4 * 16 + b div 16"
    by (simp only: a0_def b1_def)
  have "?n mod 64 = b0 * 4"
    using l by (intro div_mod_decomp [THEN conjunct2, of _ _ _ "a1 * 64 + (a0 * 16 + b1)"])
      (simp_all add: d)
  then show "?n mod 64 = b mod 16 * 4"
    by (simp only: b0_def)
qed

lemma group1:
  fixes a :: nat
  assumes "a < 256"
  shows "a * 16 div 64 mod 64 = a div 4" and "a * 16 mod 64 = a mod 4 * 16"
proof -
  define a1 a0 where "a1 = a div 4" and "a0 = a mod 4"
  have d: "a = a1 * 4 + a0"
    by (simp add: a1_def a0_def)
  have l: "a0 < 4" "a1 < 64"
    using assms by (simp_all add: a1_def a0_def div_less_iff_less_mult)
  have "a * 16 div 64 = a1"
    using l by (intro div_mod_decomp [THEN conjunct1, of "a0 * 16"]) (simp_all add: d)
  then show "a * 16 div 64 mod 64 = a div 4"
    using l by (simp add: a1_def)
  have "a * 16 mod 64 = a0 * 16"
    using l by (intro div_mod_decomp [THEN conjunct2, of _ _ _ a1]) (simp_all add: d)
  then show "a * 16 mod 64 = a mod 4 * 16"
    by (simp only: a0_def)
qed

lemma length_alphabet: "length alphabet = 64"
  by (simp add: alphabet_def)

lemma pad_not_in_alphabet: "CHR ''='' \<notin> set alphabet"
  by (simp add: alphabet_def)

lemma charAt_alphabet: "k < 64 \<Longrightarrow> charAt alphabet k = [alphabet ! k]"
  by (simp add: charAt_def length_alphabet)

lemma code_indices:
  fixes a r o' :: nat
  assumes "a < 256" "r < 256" "o' < 256"
  shows "drop_bit 2 (255 AND a) = a div 4"
    and "push_bit 4 (3 AND (255 AND a)) = a mod 4 * 16"
    and "push_bit 4 (3 AND (255 AND a)) OR drop_bit 4 (240 AND r) = a mod 4 * 16 + r div 16"
    and "push_bit 2 (15 AND r) = r mod 16 * 4"
    and "push_bit 2 (15 AND r) OR drop_bit 6 (192 AND o') = r mod 16 * 4 + o' div 64"
    and "63 AND o' = o' mod 64"
    and "a mod 4 * 16 OR drop_bit 4 (240 AND r) = a mod 4 * 16 + r div 16"
    and "r mod 16 * 4 OR drop_bit 6 (192 AND o') = r mod 16 * 4 + o' div 64"
proof -
  have a: "255 AND a = a"
    using assms by (simp add: and_low_bits)
  have hi: "drop_bit 4 (240 AND r) = r div 16" "drop_bit 6 (192 AND o') = o' div 64"
    using assms by (simp_all only: and_high_bits) (simp_all add: div_less_iff_less_mult)
  have lo: "push_bit 4 (3 AND a) = a mod 4 * 16" "push_bit 2 (15 AND r) = r mod 16 * 4"
    by (simp_all only: and_low_bits push_bit_eq_mult) simp_all
  have h: "r div 16 < 2 ^ 4" "o' div 64 < 2 ^ 2"
    using assms by (simp_all add: div_less_iff_less_mult)
  show "drop_bit 2 (255 AND a) = a div 4"
    unfolding a by (simp add: drop_bit_eq_div)
  show "push_bit 4 (3 AND (255 AND a)) = a mod 4 * 16"
    unfolding a by (rule lo)
  have "push_bit 4 (3 AND a) OR r div 16 = (3 AND a) * 2 ^ 4 + r div 16"
    by (rule push_bit_or_low [OF h(1)])
  then show "push_bit 4 (3 AND (255 AND a)) OR drop_bit 4 (240 AND r) = a mod 4 * 16 + r div 16"
    unfolding a hi by (simp only: and_low_bits) simp
  show "push_bit 2 (15 AND r) = r mod 16 * 4"
    by (rule lo)
  have "push_bit 2 (15 AND r) OR o' div 64 = (15 AND r) * 2 ^ 2 + o' div 64"
    by (rule push_bit_or_low [OF h(2)])
  then show "push_bit 2 (15 AND r) OR drop_bit 6 (192 AND o') = r mod 16 * 4 + o' div 64"
    unfolding hi by (simp only: and_low_bits) simp
  show "63 AND o' = o' mod 64"
    by (rule and_low_bits)
  from \<open>push_bit 4 (3 AND a) OR r div 16 = (3 AND a) * 2 ^ 4 + r div 16\<close>
  show "a mod 4 * 16 OR drop_bit 4 (240 AND r) = a mod 4 * 16 + r div 16"
    unfolding hi lo by (simp only: and_low_bits) simp
  from \<open>push_bit 2 (15 AND r) OR o' div 64 = (15 AND r) * 2 ^ 2 + o' div 64\<close>
  show "r mod 16 * 4 OR drop_bit 6 (192 AND o') = r mod 16 * 4 + o' div 64"
    unfolding hi lo by (simp only: and_low_bits) simp
qed

lemma index_bounds:
  fixes a r o' :: nat
  assumes "a < 256" "r < 256" "o' < 256"
  shows "a div 4 < 64" "a mod 4 * 16 < 64" "a mod 4 * 16 + r div 16 < 64"
    "r mod 16 * 4 < 64" "r mod 16 * 4 + o' div 64 < 64" "o' mod 64 < 64"
proof -
  have "a mod 4 < 4" "r mod 16 < 16" "r div 16 < 16" "o' div 64 < 4" "a div 4 < 64"
    using assms by (simp_all add: div_less_iff_less_mult)
  then show "a div 4 < 64" "a mod 4 * 16 < 64" "a mod 4 * 16 + r div 16 < 64"
    "r mod 16 * 4 < 64" "r mod 16 * 4 + o' div 64 < 64" "o' mod 64 < 64"
    by simp_all
qed

lemma base64_spec_bytes:
  fixes a b c :: nat
  assumes "a < 256" "b < 256" "c < 256"
  shows "base64_spec [a] = [alphabet ! (a div 4), alphabet ! (a mod 4 * 16)] @ ''==''"
    and "base64_spec [a, b] =
           [alphabet ! (a div 4), alphabet ! (a mod 4 * 16 + b div 16),
            alphabet ! (b mod 16 * 4)] @ ''=''"
    and "base64_spec (a # b # c # rest) =
           [alphabet ! (a div 4), alphabet ! (a mod 4 * 16 + b div 16),
            alphabet ! (b mod 16 * 4 + c div 64), alphabet ! (c mod 64)] @ base64_spec rest"
  by (simp_all only: base64_spec.simps base64_chars_def sextets_unfold list.map
        group1 [OF assms(1)] group2 [OF assms(1,2)] group3 [OF assms])

text \<open>One turn of the loop, for each of its three exits.\<close>

lemma encode_loop_last1:
  assumes "i + 1 = length e" "e ! i < 256"
  shows "encode_loop e i t =
           t @ [alphabet ! (e ! i div 4), alphabet ! (e ! i mod 4 * 16)] @ ''==''"
proof -
  have c: "(i < length e) = True" "(i + 1 = length e) = True"
    using assms by simp_all
  have cc: "charCodeAt e i = e ! i"
    using assms by (simp add: charCodeAt_def)
  note ci = code_indices [OF assms(2) assms(2) assms(2)]
  note ix = index_bounds [OF assms(2) assms(2) assms(2)]
  have "encode_loop e i t =
      t @ charAt alphabet (drop_bit 2 (255 AND e ! i))
        @ charAt alphabet (push_bit 4 (3 AND (255 AND e ! i))) @ ''==''"
    by (subst encode_loop.simps) (simp only: c cc if_True)
  also have "\<dots> = t @ [alphabet ! (e ! i div 4), alphabet ! (e ! i mod 4 * 16)] @ ''==''"
    by (simp only: ci(1,2) charAt_alphabet [OF ix(1)] charAt_alphabet [OF ix(2)]) simp
  finally show ?thesis .
qed

lemma encode_loop_last2:
  assumes "i + 2 = length e" "e ! i < 256" "e ! (i + 1) < 256"
  shows "encode_loop e i t =
           t @ [alphabet ! (e ! i div 4), alphabet ! (e ! i mod 4 * 16 + e ! (i + 1) div 16),
                alphabet ! (e ! (i + 1) mod 16 * 4)] @ ''=''"
proof -
  have c: "(i < length e) = True" "(i + 1 = length e) = False" "(i + 2 = length e) = True"
    using assms by simp_all
  have cc: "charCodeAt e i = e ! i" "charCodeAt e (i + 1) = e ! (i + 1)"
    using assms by (simp_all add: charCodeAt_def)
  note ci = code_indices [OF assms(2) assms(3) assms(3)]
  note ix = index_bounds [OF assms(2) assms(3) assms(3)]
  have "encode_loop e i t =
      t @ charAt alphabet (drop_bit 2 (255 AND e ! i))
        @ charAt alphabet (push_bit 4 (3 AND (255 AND e ! i)) OR drop_bit 4 (240 AND e ! (i + 1)))
        @ charAt alphabet (push_bit 2 (15 AND e ! (i + 1))) @ ''=''"
    by (subst encode_loop.simps) (simp only: c cc if_True if_False)
  also have "\<dots> =
      t @ [alphabet ! (e ! i div 4), alphabet ! (e ! i mod 4 * 16 + e ! (i + 1) div 16),
           alphabet ! (e ! (i + 1) mod 16 * 4)] @ ''=''"
    by (simp only: ci(1,2,4,7) charAt_alphabet [OF ix(1)] charAt_alphabet [OF ix(3)]
          charAt_alphabet [OF ix(4)]) simp
  finally show ?thesis .
qed

lemma encode_loop_group:
  assumes "i + 2 < length e" "e ! i < 256" "e ! (i + 1) < 256" "e ! (i + 2) < 256"
  shows "encode_loop e i t =
           encode_loop e (i + 3)
             (t @ [alphabet ! (e ! i div 4), alphabet ! (e ! i mod 4 * 16 + e ! (i + 1) div 16),
                   alphabet ! (e ! (i + 1) mod 16 * 4 + e ! (i + 2) div 64),
                   alphabet ! (e ! (i + 2) mod 64)])"
proof -
  have c: "(i < length e) = True" "(i + 1 = length e) = False" "(i + 2 = length e) = False"
    using assms by simp_all
  have cc: "charCodeAt e i = e ! i" "charCodeAt e (i + 1) = e ! (i + 1)"
    "charCodeAt e (i + 2) = e ! (i + 2)"
    using assms by (simp_all add: charCodeAt_def)
  note ci = code_indices [OF assms(2) assms(3) assms(4)]
  note ix = index_bounds [OF assms(2) assms(3) assms(4)]
  have "encode_loop e i t =
      encode_loop e (i + 3)
       (t @ charAt alphabet (drop_bit 2 (255 AND e ! i))
          @ charAt alphabet (push_bit 4 (3 AND (255 AND e ! i)) OR drop_bit 4 (240 AND e ! (i + 1)))
          @ charAt alphabet (push_bit 2 (15 AND e ! (i + 1)) OR drop_bit 6 (192 AND e ! (i + 2)))
          @ charAt alphabet (63 AND e ! (i + 2)))"
    by (subst encode_loop.simps) (simp only: c cc if_True if_False)
  also have "\<dots> =
      encode_loop e (i + 3)
        (t @ [alphabet ! (e ! i div 4), alphabet ! (e ! i mod 4 * 16 + e ! (i + 1) div 16),
              alphabet ! (e ! (i + 1) mod 16 * 4 + e ! (i + 2) div 64),
              alphabet ! (e ! (i + 2) mod 64)])"
    by (simp only: ci(1,2,4,6,7,8) charAt_alphabet [OF ix(1)] charAt_alphabet [OF ix(3)]
          charAt_alphabet [OF ix(5)] charAt_alphabet [OF ix(6)]) simp
  finally show ?thesis .
qed

lemma drop_last1: "j + 1 = length e \<Longrightarrow> drop j e = [e ! j]"
  by (metis Cons_nth_drop_Suc Suc_eq_plus1 drop_all lessI order_refl)

lemma drop_step: "j < length e \<Longrightarrow> drop j e = e ! j # drop (j + 1) e"
  by (simp add: Cons_nth_drop_Suc)

lemma encode_loop_eq:
  assumes "\<forall>c\<in>set e. c < 256"
  shows "i \<le> length e \<Longrightarrow> encode_loop e i t = t @ base64_spec (drop i e)"
proof (induction "length e - i" arbitrary: i t rule: less_induct)
  case less
  have b: "k < length e \<Longrightarrow> e ! k < 256" for k
    using assms by simp
  consider "i = length e" | "i + 1 = length e" | "i + 2 = length e" | "i + 2 < length e"
    using less.prems by linarith
  then show ?case
  proof cases
    case 1
    then show ?thesis
      by (subst encode_loop.simps) simp
  next
    case 2
    then have d: "drop i e = [e ! i]"
      by (rule drop_last1)
    from 2 have bi: "e ! i < 256"
      by (intro b) simp
    show ?thesis
      unfolding d encode_loop_last1 [OF 2 bi] base64_spec_bytes(1) [OF bi bi bi] ..
  next
    case 3
    then have "i < length e" "(i + 1) + 1 = length e"
      by simp_all
    then have d: "drop i e = [e ! i, e ! (i + 1)]"
      by (simp only: drop_step [of i] drop_last1 [of "i + 1"])
    from 3 have bi: "e ! i < 256" "e ! (i + 1) < 256"
      by (simp_all add: b)
    show ?thesis
      unfolding d encode_loop_last2 [OF 3 bi] base64_spec_bytes(2) [OF bi bi(2)] ..
  next
    case 4
    then have "i < length e" "i + 1 < length e" "i + 2 < length e"
      by simp_all
    then have "drop i e = e ! i # drop (i + 1) e"
      "drop (i + 1) e = e ! (i + 1) # drop (i + 1 + 1) e"
      "drop (i + 2) e = e ! (i + 2) # drop (i + 2 + 1) e"
      by (simp_all only: drop_step [symmetric])
    moreover have "i + 1 + 1 = i + 2" "i + 2 + 1 = i + 3"
      by simp_all
    ultimately have d: "drop i e = e ! i # e ! (i + 1) # e ! (i + 2) # drop (i + 3) e"
      by (simp only:)
    from 4 have bi: "e ! i < 256" "e ! (i + 1) < 256" "e ! (i + 2) < 256"
      by (simp_all add: b)
    have ih: "encode_loop e (i + 3) u = u @ base64_spec (drop (i + 3) e)" for u
      using 4 by (intro less.hyps) simp_all
    show ?thesis
      unfolding d encode_loop_group [OF 4 bi] ih base64_spec_bytes(3) [OF bi]
      by (simp only: append_assoc)
  qed
qed

lemma sign_encode_eq: "\<forall>c\<in>set e. c < 256 \<Longrightarrow> sign_encode e = base64_spec e"
  by (simp add: sign_encode_def encode_loop_eq)

text \<open>Shape of the reference encoding: the alphabet, the padding, the length.\<close>

lemma sextets_chars:
  "CHR ''='' \<notin> set (base64_chars (sextets k n))"
  "set (base64_chars (sextets k n)) \<subseteq> set alphabet"
  "length (base64_chars (sextets k n)) = k"
proof -
  have "alphabet ! (m mod 64) \<in> set alphabet" for m
    by (rule nth_mem) (simp add: length_alphabet)
  then show s: "set (base64_chars (sextets k n)) \<subseteq> set alphabet"
    by (auto simp: base64_chars_def sextets_def)
  with pad_not_in_alphabet show "CHR ''='' \<notin> set (base64_chars (sextets k n))"
    by blast
  show "length (base64_chars (sextets k n)) = k"
    by (simp add: base64_chars_def sextets_def)
qed

lemma base64_spec_shape:
  "set (base64_spec e) \<subseteq> set alphabet \<union> {CHR ''=''}"
  "length (base64_spec e) = 4 * ((length e + 2) div 3)"
  "length e mod 3 = 0 \<Longrightarrow> CHR ''='' \<notin> set (base64_spec e)"
  "length e mod 3 = 1 \<Longrightarrow> \<exists>body. base64_spec e = body @ ''=='' \<and> CHR ''='' \<notin> set body"
  "length e mod 3 = 2 \<Longrightarrow> \<exists>body. base64_spec e = body @ ''='' \<and> CHR ''='' \<notin> set body"
proof (induction e rule: base64_spec.induct)
  case 1
  {
    case 1 show ?case by simp
  next
    case 2 show ?case by simp
  next
    case 3 show ?case by simp
  next
    case 4 then show ?case by simp
  next
    case 5 then show ?case by simp
  }
next
  case (2 a)
  {
    case 1 show ?case using sextets_chars(2) [of 2 "a * 16"] by auto
  next
    case 2 show ?case by (simp add: sextets_chars)
  next
    case 3 then show ?case by simp
  next
    case 4 show ?case using sextets_chars(1) [of 2 "a * 16"] by auto
  next
    case 5 then show ?case by simp
  }
next
  case (3 a b)
  {
    case 1 show ?case using sextets_chars(2) [of 3 "(a * 256 + b) * 4"] by auto
  next
    case 2 show ?case by (simp add: sextets_chars)
  next
    case 3 then show ?case by simp
  next
    case 4 then show ?case by simp
  next
    case 5 show ?case using sextets_chars(1) [of 3 "(a * 256 + b) * 4"] by auto
  }
next
  case (4 a b c rest)
  note ih = 4
  let ?g = "base64_chars (sextets 4 (a * 65536 + b * 256 + c))"
  have "length (a # b # c # rest) = length rest + 3"
    by simp
  then have m: "length (a # b # c # rest) mod 3 = length rest mod 3"
    by (simp only: mod_add_self2)
  {
    case 1 show ?case using ih(1) sextets_chars(2) [of 4 "a * 65536 + b * 256 + c"] by auto
  next
    case 2
    have "(length rest + 3 + 2) div 3 = (length rest + 2) div 3 + 1"
      by simp
    then have "(length (a # b # c # rest) + 2) div 3 = (length rest + 2) div 3 + 1"
      by (simp add: add.commute add.left_commute)
    with ih(2) show ?case by (simp add: sextets_chars)
  next
    case 3 with ih(3) m show ?case using sextets_chars(1) [of 4 "a * 65536 + b * 256 + c"]
      by simp
  next
    case 4
    with ih(4) m obtain body where "base64_spec rest = body @ ''==''" "CHR ''='' \<notin> set body"
      by auto
    then have "base64_spec (a # b # c # rest) = (?g @ body) @ ''==''"
      "CHR ''='' \<notin> set (?g @ body)"
      using sextets_chars(1) [of 4 "a * 65536 + b * 256 + c"] by simp_all
    then show ?case by blast
  next
    case 5
    with ih(5) m obtain body where "base64_spec rest = body @ ''=''" "CHR ''='' \<notin> set body"
      by auto
    then have "base64_spec (a # b # c # rest) = (?g @ body) @ ''=''"
      "CHR ''='' \<notin> set (?g @ body)"
      using sextets_chars(1) [of 4 "a * 65536 + b * 256 + c"] by simp_all
    then show ?case by blast
  }
qed

lemma alphabet_nth:
  "alphabet ! 25 = CHR ''Z''" "alphabet ! 38 = CHR ''m''" "alphabet ! 61 = CHR ''9''"
  "alphabet ! 47 = CHR ''v''" "alphabet ! 60 = CHR ''8''" "alphabet ! 24 = CHR ''Y''"
  "alphabet ! 4 = CHR ''E''"
  by (simp_all add: alphabet_def)

lemma base64_spec_samples:
  "base64_spec [102, 111, 111] = ''Zm9v''"
  "base64_spec [102, 111] = ''Zm8=''"
  "base64_spec [102, 111, 111, 98, 97] = ''Zm9vYmE=''"
proof -
  have b: "(102 :: nat) < 256" "(111 :: nat) < 256" "(98 :: nat) < 256" "(97 :: nat) < 256"
    by simp_all
  have f: "base64_spec [102, 111, 111] = ''Zm9v''"
    unfolding base64_spec_bytes(3) [OF b(1) b(2) b(2)]
    by (simp add: alphabet_nth)
  then show "base64_spec [102, 111, 111] = ''Zm9v''" .
  show "base64_spec [102, 111] = ''Zm8=''"
    unfolding base64_spec_bytes(2) [OF b(1) b(2) b(2)]
    by (simp add: alphabet_nth)
  have "base64_spec [98, 97] = ''YmE=''"
    unfolding base64_spec_bytes(2) [OF b(3) b(4) b(4)]
    by (simp add: alphabet_nth)
  then show "base64_spec [102, 111, 111, 98, 97] = ''Zm9vYmE=''"
    unfolding base64_spec_bytes(3) [OF b(1) b(2) b(2)]
    by (simp add: alphabet_nth)
qed

lemma sign_encode_samples:
  "sign_encode [102, 111, 111] = ''Zm9v''" "sign_encode [102, 111] = ''Zm8=''"
proof -
  have b: "\<forall>c\<in>set [102 :: nat, 111, 111]. c < 256" "\<forall>c\<in>set [102 :: nat, 111]. c < 256"
    by simp_all
  show "sign_encode [102, 111, 111] = ''Zm9v''"
    by (simp only: sign_encode_eq [OF b(1)] base64_spec_samples)
  show "sign_encode [102, 111] = ''Zm8=''"
    by (simp only: sign_encode_eq [OF b(2)] base64_spec_samples)
qed

text \<open>C2. For every input string whose characters are byte valued, the encoder inside
  \<^verbatim>\<open>#sign\<close> returns the standard base64 of those bytes: it equals the reference encoding
  \<open>base64_spec\<close>, uses only the alphabet \<^verbatim>\<open>A-Z a-z 0-9 + /\<close> and the padding character, has four
  characters for every started group of three bytes, has no padding when the length is a
  multiple of 3, ends in exactly \<^verbatim>\<open>==\<close> with one leftover byte and in exactly one \<^verbatim>\<open>=\<close> with
  two; the bytes 102, 111, 111 give \<^verbatim>\<open>Zm9v\<close> and 102, 111 give \<^verbatim>\<open>Zm8=\<close>.\<close>

theorem sign_encode_is_base64:
  assumes "\<forall>c\<in>set e. c < 256"
  shows "sign_encode e = base64_spec e
     \<and> set (sign_encode e) \<subseteq> set alphabet \<union> {CHR ''=''}
     \<and> length (sign_encode e) = 4 * ((length e + 2) div 3)
     \<and> (length e mod 3 = 0 \<longrightarrow> CHR ''='' \<notin> set (sign_encode e))
     \<and> (length e mod 3 = 1 \<longrightarrow>
          (\<exists>body. sign_encode e = body @ ''=='' \<and> CHR ''='' \<notin> set body))
     \<and> (length e mod 3 = 2 \<longrightarrow>
          (\<exists>body. sign_encode e = body @ ''='' \<and> CHR ''='' \<notin> set body))
     \<and> sign_encode [102, 111, 111] = ''Zm9v''
     \<and> sign_encode [102, 111] = ''Zm8=''"
proof -
  have eq: "sign_encode e = base64_spec e"
    by (rule sign_encode_eq [OF assms])
  note sh = base64_spec_shape [of e]
  show ?thesis
    unfolding eq
  proof (intro conjI impI)
    show "base64_spec e = base64_spec e" ..
    show "set (base64_spec e) \<subseteq> set alphabet \<union> {CHR ''=''}"
      by (rule sh(1))
    show "length (base64_spec e) = 4 * ((length e + 2) div 3)"
      by (rule sh(2))
    show "CHR ''='' \<notin> set (base64_spec e)" if "length e mod 3 = 0"
      using that by (rule sh(3))
    show "\<exists>body. base64_spec e = body @ ''=='' \<and> CHR ''='' \<notin> set body"
      if "length e mod 3 = 1"
      using that by (rule sh(4))
    show "\<exists>body. base64_spec e = body @ ''='' \<and> CHR ''='' \<notin> set body"
      if "length e mod 3 = 2"
      using that by (rule sh(5))
    show "sign_encode [102, 111, 111] = ''Zm9v''"
      by (rule sign_encode_samples)
    show "sign_encode [102, 111] = ''Zm8=''"
      by (rule sign_encode_samples)
  qed
qed

theorem sign_encode_is_base64_witness:
  "list_all (\<lambda>c. c < (256 :: nat)) [102, 111, 111, 98, 97]
   \<and> length [102 :: nat, 111, 111, 98, 97] mod 3 = 2
   \<and> base64_spec [102, 111, 111, 98, 97] = ''Zm9vYmE=''
   \<and> sign_encode [102, 111, 111, 98, 97] = ''Zm9vYmE=''"
proof -
  have b: "\<forall>c\<in>set [102 :: nat, 111, 111, 98, 97]. c < 256"
    by simp
  from sign_encode_is_base64 [OF b]
  have "sign_encode [102, 111, 111, 98, 97] = base64_spec [102, 111, 111, 98, 97]"
    by (rule conjunct1)
  then have "sign_encode [102, 111, 111, 98, 97] = ''Zm9vYmE=''"
    by (simp only: base64_spec_samples)
  moreover have "list_all (\<lambda>c. c < (256 :: nat)) [102, 111, 111, 98, 97]"
    "length [102 :: nat, 111, 111, 98, 97] mod 3 = 2"
    by simp_all
  ultimately show ?thesis
    using base64_spec_samples(3) by (intro conjI)
qed

end
